theory Spec2Isabelle
  imports Main
begin

section \<open>JavaScript strings\<close>

text \<open>
  The generator is a Node.js script. A JavaScript string is a sequence of code units;
  it is modelled as a \<^typ>\<open>string\<close>, one \<^typ>\<open>char\<close> per code unit, which covers the
  code units 0x00 to 0xFF (ASCII and Latin-1). On that range lower-casing replaces one
  code unit by one code unit. The functions below are the string methods the script
  calls, with the results JavaScript gives on this range.
\<close>

definition isWhiteSpace :: "char \<Rightarrow> bool" where
  "isWhiteSpace c \<longleftrightarrow>
     c \<in> set [CHR 0x09, CHR 0x0A, CHR 0x0B, CHR 0x0C, CHR 0x0D, CHR 0x20, CHR 0xA0]"

definition trim :: "string \<Rightarrow> string" where
  "trim s = rev (dropWhile isWhiteSpace (rev (dropWhile isWhiteSpace s)))"

definition startsWith :: "string \<Rightarrow> string \<Rightarrow> bool" where
  "startsWith s p \<longleftrightarrow> take (length p) s = p"

definition upperCaseUnits :: "string" where
  "upperCaseUnits =
     ''ABCDEFGHIJKLMNOPQRSTUVWXYZ'' @
     [CHR 0xC0, CHR 0xC1, CHR 0xC2, CHR 0xC3, CHR 0xC4, CHR 0xC5, CHR 0xC6, CHR 0xC7,
      CHR 0xC8, CHR 0xC9, CHR 0xCA, CHR 0xCB, CHR 0xCC, CHR 0xCD, CHR 0xCE, CHR 0xCF,
      CHR 0xD0, CHR 0xD1, CHR 0xD2, CHR 0xD3, CHR 0xD4, CHR 0xD5, CHR 0xD6,
      CHR 0xD8, CHR 0xD9, CHR 0xDA, CHR 0xDB, CHR 0xDC, CHR 0xDD, CHR 0xDE]"

definition lowerCaseUnits :: "string" where
  "lowerCaseUnits =
     ''abcdefghijklmnopqrstuvwxyz'' @
     [CHR 0xE0, CHR 0xE1, CHR 0xE2, CHR 0xE3, CHR 0xE4, CHR 0xE5, CHR 0xE6, CHR 0xE7,
      CHR 0xE8, CHR 0xE9, CHR 0xEA, CHR 0xEB, CHR 0xEC, CHR 0xED, CHR 0xEE, CHR 0xEF,
      CHR 0xF0, CHR 0xF1, CHR 0xF2, CHR 0xF3, CHR 0xF4, CHR 0xF5, CHR 0xF6,
      CHR 0xF8, CHR 0xF9, CHR 0xFA, CHR 0xFB, CHR 0xFC, CHR 0xFD, CHR 0xFE]"

definition toLowerCaseUnit :: "char \<Rightarrow> char" where
  "toLowerCaseUnit c =
     (case map_of (zip upperCaseUnits lowerCaseUnits) c of Some l \<Rightarrow> l | None \<Rightarrow> c)"

definition toLowerCase :: "string \<Rightarrow> string" where
  "toLowerCase s = map toLowerCaseUnit s"

text \<open>
  \<open>s.indexOf(t)\<close>: the first position at which \<open>t\<close> occurs in \<open>s\<close>; JavaScript's
  \<open>-1\<close> is \<open>None\<close>.
\<close>

fun indexOf :: "string \<Rightarrow> string \<Rightarrow> nat option" where
  "indexOf [] t = (if t = [] then Some 0 else None)"
| "indexOf (c # cs) t =
     (if startsWith (c # cs) t then Some 0 else map_option Suc (indexOf cs t))"

definition includes_str :: "string \<Rightarrow> string \<Rightarrow> bool" where
  "includes_str s t \<longleftrightarrow> indexOf s t \<noteq> None"

text \<open>
  \<open>s.slice(a, b)\<close> and \<open>s.slice(a)\<close> for indices that are not negative, on strings
  and on arrays.
\<close>

definition slice :: "'a list \<Rightarrow> nat \<Rightarrow> nat \<Rightarrow> 'a list" where
  "slice s a b = take (b - a) (drop a s)"

definition sliceFrom :: "'a list \<Rightarrow> nat \<Rightarrow> 'a list" where
  "sliceFrom s a = drop a s"

text \<open>\<open>parts.join(sep)\<close>.\<close>

fun join :: "string \<Rightarrow> string list \<Rightarrow> string" where
  "join sep [] = []"
| "join sep [x] = x"
| "join sep (x # y # ys) = x @ sep @ join sep (y # ys)"

text \<open>
  \<open>s.split(sep)\<close> for a separator of one code unit: the pieces between the separators,
  at least one piece.
\<close>

fun split :: "char \<Rightarrow> string \<Rightarrow> string list" where
  "split sep [] = [[]]"
| "split sep (c # cs) =
     (if c = sep then [] # split sep cs
      else (case split sep cs of [] \<Rightarrow> [[c]] | p # ps \<Rightarrow> (c # p) # ps))"

text \<open>
  \<open>parseInt(s, 10)\<close>: leading white space is skipped, a sign is read, then the longest
  run of decimal digits; \<open>NaN\<close> (no digit) is \<open>None\<close>. Text after the digits is ignored.
\<close>

definition isDigit :: "char \<Rightarrow> bool" where
  "isDigit c \<longleftrightarrow> c \<in> set ''0123456789''"

definition digitValue :: "char \<Rightarrow> nat" where
  "digitValue c = of_char c - 48"

definition digitsValue :: "string \<Rightarrow> nat" where
  "digitsValue ds = foldl (\<lambda>n c. 10 * n + digitValue c) 0 ds"

definition parseInt :: "string \<Rightarrow> int option" where
  "parseInt s =
     (let t = dropWhile isWhiteSpace s;
          (sign, u) =
            (case t of
               [] \<Rightarrow> (1, t)
             | c # r \<Rightarrow>
                 if c = CHR ''-'' then (- 1, r) else if c = CHR ''+'' then (1, r) else (1, t));
          ds = takeWhile isDigit u
      in if ds = [] then None else Some (sign * int (digitsValue ds)))"

text \<open>
  \<open>s.toUpperCase()\<close>. The script upper-cases the section titles only, which are ASCII;
  the three code units of the range whose upper case lies outside it, or is two code
  units long (0xB5, 0xDF, 0xFF), are not in the table.
\<close>

definition toUpperCaseUnit :: "char \<Rightarrow> char" where
  "toUpperCaseUnit c =
     (case map_of (zip lowerCaseUnits upperCaseUnits) c of Some u \<Rightarrow> u | None \<Rightarrow> c)"

definition toUpperCase :: "string \<Rightarrow> string" where
  "toUpperCase s = map toUpperCaseUnit s"

text \<open>
  The script writes two characters outside the range, U+2013 and U+2014, as separators.
  It only emits them; they stand here as the bytes of their UTF-8 encoding, as in the
  source file.
\<close>

definition EN_DASH :: string where
  "EN_DASH = [CHR 0xE2, CHR 0x80, CHR 0x93]"

definition EM_DASH :: string where
  "EM_DASH = [CHR 0xE2, CHR 0x80, CHR 0x94]"

text \<open>
  A value that may be missing (\<open>null\<close>, \<open>undefined\<close>, or no such key) is an option.
  \<open>if (v)\<close> holds for a string that is present and not empty.
\<close>

definition truthy :: "string option \<Rightarrow> bool" where
  "truthy v \<longleftrightarrow> (case v of None \<Rightarrow> False | Some s \<Rightarrow> s \<noteq> [])"

text \<open>\<open>v || d\<close> on strings.\<close>

definition orElse :: "string option \<Rightarrow> string \<Rightarrow> string" where
  "orElse v d = (case v of None \<Rightarrow> d | Some s \<Rightarrow> if s \<noteq> [] then s else d)"

text \<open>\<open>if (v) parts.push(f(v))\<close>.\<close>

definition pushIf :: "string option \<Rightarrow> (string \<Rightarrow> 'a) \<Rightarrow> 'a list \<Rightarrow> 'a list" where
  "pushIf v f parts = (case v of None \<Rightarrow> parts | Some s \<Rightarrow> if s \<noteq> [] then parts @ [f s] else parts)"

section \<open>The document model of the docx library\<close>

text \<open>
  The options a \<open>TextRun\<close> is built from. An option the script leaves out is \<open>None\<close>.
\<close>

record TextRun =
  run_text :: string
  run_bold :: "bool option"
  run_italics :: "bool option"
  run_size :: nat
  run_font :: string
  run_color :: "string option"

definition FONT :: string where
  "FONT = ''Calibri''"

definition FONT_SIZE_NAME :: nat where
  "FONT_SIZE_NAME = 32"

definition FONT_SIZE_CONTACT :: nat where
  "FONT_SIZE_CONTACT = 20"

definition FONT_SIZE_HEADING :: nat where
  "FONT_SIZE_HEADING = 24"

definition FONT_SIZE_BODY :: nat where
  "FONT_SIZE_BODY = 20"

text \<open>\<open>new TextRun({ text, font: FONT, size })\<close>, the run with no other option.\<close>

definition textRun :: "string \<Rightarrow> nat \<Rightarrow> TextRun" where
  "textRun t sz =
     \<lparr>run_text = t, run_bold = None, run_italics = None, run_size = sz,
      run_font = FONT, run_color = None\<rparr>"

text \<open>A run is emphasized when its \<open>bold\<close> option is set and true.\<close>

definition emphasized :: "TextRun \<Rightarrow> bool" where
  "emphasized r \<longleftrightarrow> run_bold r = Some True"

datatype AlignmentType = CENTER

datatype HeadingLevel = HEADING_2

datatype ParagraphChild =
  Run TextRun
| ExternalHyperlink (link: string) (hyperlink_children: "TextRun list")

text \<open>
  The options a \<open>Paragraph\<close> is built from. The only border the script sets is the
  bottom rule of a section heading, always with the same colour, size and style.
\<close>

record Paragraph =
  par_heading :: "HeadingLevel option"
  par_alignment :: "AlignmentType option"
  par_bullet_level :: "nat option"
  par_spacing_before :: "nat option"
  par_spacing_after :: "nat option"
  par_border_bottom :: bool
  par_children :: "ParagraphChild list"

definition newParagraph :: "ParagraphChild list \<Rightarrow> Paragraph" where
  "newParagraph cs =
     \<lparr>par_heading = None, par_alignment = None, par_bullet_level = None,
      par_spacing_before = None, par_spacing_after = None, par_border_bottom = False,
      par_children = cs\<rparr>"

text \<open>The document: one section with four equal page margins.\<close>

record Document =
  doc_margin :: nat
  doc_children :: "Paragraph list"

section \<open>Emphasis: splitBulletWithBolds\<close>

definition PRIORITY_BOLD :: "string list" where
  "PRIORITY_BOLD =
     [''Azure Blob Storage'', ''Azure'', ''Power BI'', ''Power Query'', ''Power Automate'',
      ''Python'', ''SQL'', ''DAX'', ''MySQL'', ''ETL'',
      ''FLAIR'', ''FOCUS'', ''HMGP'', ''FEMA'', ''ARIMA'', ''Prophet'',
      ''Flask'', ''MongoDB'', ''Selenium'', ''Scikit-learn'', ''LangChain'',
      ''Snowflake'', ''PostgreSQL'', ''SQL Server'', ''Spark'', ''Airflow'',
      ''Databricks'', ''GCP'', ''AWS'', ''Docker'', ''REST API'', ''FastAPI'']"

definition NEVER_BOLD :: "string list" where
  "NEVER_BOLD =
     [''SHA-256'', ''KPIs'', ''SLA'', ''CSRF'', ''.NET'', ''VBA'', ''Git'', ''GitHub'',
      ''SharePoint'', ''OneDrive'', ''Windows Task Scheduler'', ''Excel'', ''JSON'', ''CSV'',
      ''XML'']"

definition SKIP_LEADERSHIP_STARTS :: "string list" where
  "SKIP_LEADERSHIP_STARTS =
     [''Collaborated'', ''Onboarded'', ''Trained'', ''Presented'', ''Authored'',
      ''Led a'', ''Worked with'', ''Partnered'']"

text \<open>
  A segment of the bullet while it is being split. Every segment the function builds
  carries its \<open>startOffset\<close>, so the script's test for an undefined offset never fires.
\<close>

record segment =
  seg_text :: string
  seg_bold :: bool
  startOffset :: nat

text \<open>
  The filter over \<open>PRIORITY_BOLD\<close>. \<open>matchedKeywords\<close> is \<open>None\<close> for \<open>null\<close> or
  \<open>undefined\<close>.
\<close>

definition termsToCheck :: "string list option \<Rightarrow> string list" where
  "termsToCheck matchedKeywords =
     filter
       (\<lambda>t. t \<notin> set NEVER_BOLD \<and>
          (case matchedKeywords of
             None \<Rightarrow> True
           | Some kws \<Rightarrow>
               kws = [] \<or>
               (\<exists>kw \<in> set kws.
                  includes_str (toLowerCase kw) (toLowerCase t) \<or>
                  includes_str (toLowerCase t) (toLowerCase kw))))
       PRIORITY_BOLD"

text \<open>
  \<open>termsToCheck.sort((a, b) => b.length - a.length)\<close>: longest first; the sort of
  JavaScript is stable, as is \<^const>\<open>sort_key\<close>.
\<close>

definition sortedTerms :: "string list option \<Rightarrow> string list" where
  "sortedTerms matchedKeywords =
     sort_key (\<lambda>t. - int (length t)) (termsToCheck matchedKeywords)"

text \<open>
  The inner loop over the segments for one term: the new segments, and \<open>didBold\<close> as it
  stands after the loop.
\<close>

fun boldTerm :: "string \<Rightarrow> nat \<Rightarrow> bool \<Rightarrow> segment list \<Rightarrow> segment list \<times> bool" where
  "boldTerm term midpoint didBold [] = ([], didBold)"
| "boldTerm term midpoint didBold (seg # segs) =
     (if seg_bold seg \<or> didBold then
        (let (rest, d) = boldTerm term midpoint didBold segs in (seg # rest, d))
      else
        (case indexOf (toLowerCase (seg_text seg)) (toLowerCase term) of
           None \<Rightarrow> (let (rest, d) = boldTerm term midpoint didBold segs in (seg # rest, d))
         | Some idx \<Rightarrow>
             (let globalIdx = startOffset seg + idx in
              if globalIdx \<ge> midpoint then
                (let (rest, d) = boldTerm term midpoint didBold segs in (seg # rest, d))
              else
                (let beforeText = slice (seg_text seg) 0 idx;
                     matchText = slice (seg_text seg) idx (idx + length term);
                     afterText = sliceFrom (seg_text seg) (idx + length term);
                     so = startOffset seg;
                     (rest, d) = boldTerm term midpoint True segs
                 in ((if beforeText \<noteq> [] then
                        [\<lparr>seg_text = beforeText, seg_bold = False, startOffset = so\<rparr>] else []) @
                     [\<lparr>seg_text = matchText, seg_bold = True, startOffset = so + idx\<rparr>] @
                     (if afterText \<noteq> [] then
                        [\<lparr>seg_text = afterText, seg_bold = False,
                          startOffset = so + idx + length term\<rparr>] else []) @
                     rest, d)))))"

text \<open>The outer loop over the sorted terms, with \<open>segments\<close> and \<open>boldCount\<close> as its state.\<close>

fun boldTerms :: "nat \<Rightarrow> nat \<Rightarrow> string list \<Rightarrow> segment list \<Rightarrow> nat \<Rightarrow> segment list" where
  "boldTerms maxBolds midpoint [] segments boldCount = segments"
| "boldTerms maxBolds midpoint (term # terms) segments boldCount =
     (if boldCount \<ge> maxBolds then segments
      else
        (let (newSegments, didBold) = boldTerm term midpoint False segments in
         if didBold then boldTerms maxBolds midpoint terms newSegments (boldCount + 1)
         else boldTerms maxBolds midpoint terms segments boldCount))"

definition segmentRun :: "segment \<Rightarrow> TextRun" where
  "segmentRun seg = (textRun (seg_text seg) FONT_SIZE_BODY)\<lparr>run_bold := Some (seg_bold seg)\<rparr>"

text \<open>
  \<open>splitBulletWithBolds(text, matchedKeywords, maxBolds = 2)\<close>. The bullet is
  \<open>None\<close> for \<open>null\<close> or \<open>undefined\<close>; \<open>maxBolds\<close> is a count.
\<close>

definition splitBulletWithBolds :: "string option \<Rightarrow> string list option \<Rightarrow> nat \<Rightarrow> TextRun list" where
  "splitBulletWithBolds text matchedKeywords maxBolds =
     (case text of
        None \<Rightarrow> [textRun '''' FONT_SIZE_BODY]
      | Some t \<Rightarrow>
          if t = [] then [textRun '''' FONT_SIZE_BODY]
          else if \<exists>prefix \<in> set SKIP_LEADERSHIP_STARTS. startsWith (trim t) prefix
          then [textRun t FONT_SIZE_BODY]
          else
            map segmentRun
              (boldTerms maxBolds (length t div 2) (sortedTerms matchedKeywords)
                 [\<lparr>seg_text = t, seg_bold = False, startOffset = 0\<rparr>] 0))"

section \<open>Dates: formatDate\<close>

definition months :: "string list" where
  "months =
     [''Jan'', ''Feb'', ''Mar'', ''Apr'', ''May'', ''Jun'',
      ''Jul'', ''Aug'', ''Sep'', ''Oct'', ''Nov'', ''Dec'']"

text \<open>
  \<open>formatDate(dateStr)\<close>. \<open>!dateStr\<close> holds for a missing date and for the empty string.
  \<open>monthIdx\<close> is an integer, or \<open>NaN\<close>, for which both comparisons fail.
\<close>

definition formatDate :: "string option \<Rightarrow> string" where
  "formatDate dateStr =
     (case dateStr of
        None \<Rightarrow> ''Present''
      | Some d \<Rightarrow>
          if d = [] then ''Present''
          else
            (case split CHR ''-'' d of
               year # part1 # _ \<Rightarrow>
                 (case parseInt part1 of
                    None \<Rightarrow> d
                  | Some n \<Rightarrow>
                      (let monthIdx = n - 1 in
                       if monthIdx \<ge> 0 \<and> monthIdx < 12
                       then months ! nat monthIdx @ '' '' @ year
                       else d))
             | _ \<Rightarrow> d))"

section \<open>The payload\<close>

text \<open>
  The parsed JSON the script reads. A field the script guards with \<open>if\<close> or \<open>||\<close> is
  an option; the others are the fields every entry carries. A bullet is a string or an
  object with \<open>text\<close> and \<open>matched_keywords\<close>, whose keywords are strings.
\<close>

record Personal =
  personal_name :: "string option"
  personal_email :: "string option"
  personal_phone :: "string option"
  personal_linkedin :: "string option"
  personal_github :: "string option"
  personal_portfolio :: "string option"
  personal_location :: "string option"

datatype Bullet =
  BulletString string
| BulletObject (bullet_text: "string option") (bullet_matched_keywords: "string list option")

record Job =
  job_company :: string
  job_title :: string
  job_location :: "string option"
  job_start_date :: "string option"
  job_end_date :: "string option"
  job_bullets :: "Bullet list option"

record Project =
  proj_name :: string
  proj_github_url :: "string option"
  proj_bullets :: "Bullet list option"

record Skill =
  skill_name :: string
  skill_category :: "string option"

record Certification =
  cert_name :: string
  cert_issuer :: "string option"
  cert_issued :: "string option"

record Education =
  edu_degree :: string
  edu_field :: "string option"
  edu_institution :: string
  edu_location :: "string option"
  edu_gpa :: "string option"
  edu_end_date :: "string option"

record Payload =
  data_personal :: "Personal option"
  data_summary :: "string option"
  data_experience :: "Job list option"
  data_projects :: "Project list option"
  data_skills :: "Skill list option"
  data_certifications :: "Certification list option"
  data_education :: "Education list option"
  data_content :: "string option"
  data_date :: "string option"

text \<open>\<open>xs || []\<close> on arrays: an array, even an empty one, is kept.\<close>

definition orEmpty :: "'a list option \<Rightarrow> 'a list" where
  "orEmpty xs = (case xs of None \<Rightarrow> [] | Some ys \<Rightarrow> ys)"

section \<open>The sections of the document\<close>

text \<open>\<open>data.personal || {}\<close>: the object with no field.\<close>

definition emptyPersonal :: Personal where
  "emptyPersonal =
     \<lparr>personal_name = None, personal_email = None, personal_phone = None,
      personal_linkedin = None, personal_github = None, personal_portfolio = None,
      personal_location = None\<rparr>"

definition contactRun :: "string \<Rightarrow> TextRun" where
  "contactRun t = textRun t FONT_SIZE_CONTACT"

text \<open>The hyperlink pushed for \<open>linkedin\<close>, \<open>github\<close> and \<open>portfolio\<close>.\<close>

definition profileLink :: "string \<Rightarrow> ParagraphChild" where
  "profileLink v =
     ExternalHyperlink (if startsWith v ''http'' then v else ''https://'' @ v)
       [(contactRun v)\<lparr>run_color := Some ''0000FF''\<rparr>]"

text \<open>
  \<open>if (v) { if (linkParts.length > 0) linkParts.push(separator); linkParts.push(link) }\<close>,
  as written for \<open>github\<close> and \<open>portfolio\<close>; for \<open>linkedin\<close>, pushed first, the list is
  still empty.
\<close>

definition pushLink :: "string option \<Rightarrow> ParagraphChild list \<Rightarrow> ParagraphChild list" where
  "pushLink v linkParts =
     (case v of
        None \<Rightarrow> linkParts
      | Some s \<Rightarrow>
          if s = [] then linkParts
          else (if linkParts \<noteq> [] then linkParts @ [Run (contactRun '' | '')] else linkParts)
               @ [profileLink s])"

definition buildHeader :: "Personal \<Rightarrow> Paragraph list" where
  "buildHeader personal =
     (let children =
            [(newParagraph
                [Run ((textRun (orElse (personal_name personal) []) FONT_SIZE_NAME)
                        \<lparr>run_bold := Some True\<rparr>)])
               \<lparr>par_alignment := Some CENTER, par_spacing_after := Some 60\<rparr>];
          contactParts =
            pushIf (personal_email personal) id
              (pushIf (personal_phone personal) id
                 (pushIf (personal_location personal) id []));
          children =
            (if contactParts \<noteq> [] then
               children @
               [(newParagraph [Run (contactRun (join '' | '' contactParts))])
                  \<lparr>par_alignment := Some CENTER, par_spacing_after := Some 40\<rparr>]
             else children);
          linkParts =
            pushLink (personal_portfolio personal)
              (pushLink (personal_github personal)
                 (pushLink (personal_linkedin personal) []));
          children =
            (if linkParts \<noteq> [] then
               children @
               [(newParagraph linkParts)
                  \<lparr>par_alignment := Some CENTER, par_spacing_after := Some 120\<rparr>]
             else children)
      in children)"

definition sectionHeading :: "string \<Rightarrow> Paragraph" where
  "sectionHeading title =
     (newParagraph
        [Run ((textRun (toUpperCase title) FONT_SIZE_HEADING)\<lparr>run_bold := Some True\<rparr>)])
       \<lparr>par_heading := Some HEADING_2, par_spacing_before := Some 160,
        par_spacing_after := Some 60, par_border_bottom := True\<rparr>"

text \<open>
  The loop over the bullets of a job or of a project; the script has the same loop in
  \<open>buildExperience\<close> and in \<open>buildProjects\<close>. It calls \<open>splitBulletWithBolds\<close> with two
  arguments, so \<open>maxBolds\<close> is its default, 2.
\<close>

definition bulletParagraph :: "Bullet \<Rightarrow> Paragraph list" where
  "bulletParagraph bullet =
     (let text = (case bullet of BulletString s \<Rightarrow> s | BulletObject t _ \<Rightarrow> orElse t []);
          matchedKeywords =
            (case bullet of BulletString _ \<Rightarrow> [] | BulletObject _ kws \<Rightarrow> orEmpty kws)
      in if text \<noteq> [] then
           [(newParagraph (map Run (splitBulletWithBolds (Some text) (Some matchedKeywords) 2)))
              \<lparr>par_bullet_level := Some 0, par_spacing_after := Some 40\<rparr>]
         else [])"

definition bulletParagraphs :: "Bullet list option \<Rightarrow> Paragraph list" where
  "bulletParagraphs bullets = concat (map bulletParagraph (orEmpty bullets))"

definition bodyRun :: "string \<Rightarrow> TextRun" where
  "bodyRun t = textRun t FONT_SIZE_BODY"

definition dateRange :: "Job \<Rightarrow> string" where
  "dateRange job =
     (let startFormatted = formatDate (job_start_date job);
          endFormatted = formatDate (job_end_date job)
      in startFormatted @ '' '' @ EN_DASH @ '' '' @ endFormatted)"

text \<open>What one turn of the loop of \<open>buildExperience\<close> pushes.\<close>

definition jobParagraphs :: "Job \<Rightarrow> Paragraph list" where
  "jobParagraphs job =
     [(newParagraph
         [Run ((bodyRun (job_company job @ '', ''))\<lparr>run_bold := Some True\<rparr>),
          Run ((bodyRun (job_title job))\<lparr>run_bold := Some True\<rparr>),
          Run (bodyRun ('' | '' @ dateRange job))])
        \<lparr>par_spacing_before := Some 120, par_spacing_after := Some 40\<rparr>] @
     pushIf (job_location job)
       (\<lambda>l. (newParagraph [Run ((bodyRun l)\<lparr>run_italics := Some True\<rparr>)])
                \<lparr>par_spacing_after := Some 40\<rparr>) [] @
     bulletParagraphs (job_bullets job)"

definition buildExperience :: "Job list \<Rightarrow> Paragraph list" where
  "buildExperience jobs =
     foldl (\<lambda>children job. children @ jobParagraphs job)
       [sectionHeading ''Professional Experience''] jobs"

text \<open>What one turn of the loop of \<open>buildProjects\<close> pushes.\<close>

definition projectParagraphs :: "Project \<Rightarrow> Paragraph list" where
  "projectParagraphs proj =
     (let titleParts = [Run ((bodyRun (proj_name proj))\<lparr>run_bold := Some True\<rparr>)];
          titleParts =
            (case proj_github_url proj of
               None \<Rightarrow> titleParts
             | Some url \<Rightarrow>
                 if url \<noteq> [] \<and> startsWith url ''http'' then
                   titleParts @
                   [Run (bodyRun ('' '' @ EM_DASH @ '' '')),
                    ExternalHyperlink url [(bodyRun ''GitHub'')\<lparr>run_color := Some ''0000FF''\<rparr>]]
                 else titleParts)
      in [(newParagraph titleParts)
            \<lparr>par_spacing_before := Some 120, par_spacing_after := Some 40\<rparr>] @
         bulletParagraphs (proj_bullets proj))"

definition buildProjects :: "Project list \<Rightarrow> bool \<Rightarrow> Paragraph list" where
  "buildProjects projects isCv =
     (if projects = [] then []
      else
        (let children = [sectionHeading ''Projects''];
             topProjects = (if isCv then projects else slice projects 0 3)
         in foldl (\<lambda>children proj. children @ projectParagraphs proj) children topProjects))"

section \<open>Skills: a JavaScript object as the grouping table\<close>

text \<open>
  A failure of the script is a value. A \<open>TypeError\<close> is thrown by the script's own
  code, a \<open>SyntaxError\<close> by \<open>JSON.parse\<close>; the other two are raised by the docx
  library and by the file system.
\<close>

datatype error =
  TypeError string
| SyntaxError string
| PackerError string
| FsError string

text \<open>
  \<open>byCategory\<close> is a plain object, \<open>{}\<close>. Its own properties are kept in the order
  in which they were created. A read \<open>byCategory[cat]\<close> of a key the object does not
  own is answered by \<open>Object.prototype\<close>, which has a (truthy) value under these keys:
\<close>

definition objectPrototypeKeys :: "string list" where
  "objectPrototypeKeys =
     [''constructor'', ''__proto__'', ''hasOwnProperty'', ''isPrototypeOf'',
      ''propertyIsEnumerable'', ''toLocaleString'', ''toString'', ''valueOf'',
      ''__defineGetter__'', ''__defineSetter__'', ''__lookupGetter__'',
      ''__lookupSetter__'']"

text \<open>
  An array index: the decimal numeral, without leading zeros, of an integer from 0 to
  \<open>2^32 - 2\<close>. \<open>Object.entries\<close> lists the own properties whose keys are array indices
  first, in ascending numeric order, then the other keys in the order of their creation.
\<close>

definition isArrayIndex :: "string \<Rightarrow> bool" where
  "isArrayIndex k \<longleftrightarrow>
     k \<noteq> [] \<and> list_all isDigit k \<and> (k = ''0'' \<or> hd k \<noteq> CHR ''0'') \<and>
     digitsValue k < 4294967295"

definition objectEntries :: "(string \<times> 'a) list \<Rightarrow> (string \<times> 'a) list" where
  "objectEntries props =
     sort_key (\<lambda>(k, v). digitsValue k) (filter (\<lambda>(k, v). isArrayIndex k) props) @
     filter (\<lambda>(k, v). \<not> isArrayIndex k) props"

text \<open>
  The first loop of \<open>buildSkills\<close>. Under a key of \<open>Object.prototype\<close> the test
  \<open>!byCategory[cat]\<close> fails, no array is stored, and \<open>byCategory[cat].push\<close> is not a
  function: the call throws.
\<close>

fun groupSkills :: "(string \<times> string list) list \<Rightarrow> Skill list \<Rightarrow> error + (string \<times> string list) list" where
  "groupSkills byCategory [] = Inr byCategory"
| "groupSkills byCategory (skill # skills) =
     (let cat = orElse (skill_category skill) ''Other'' in
      if cat \<in> set objectPrototypeKeys
      then Inl (TypeError ''byCategory[cat].push is not a function'')
      else
        groupSkills
          (case map_of byCategory cat of
             None \<Rightarrow> byCategory @ [(cat, [skill_name skill])]
           | Some names \<Rightarrow>
               map (\<lambda>(k, v). if k = cat then (k, v @ [skill_name skill]) else (k, v))
                 byCategory)
          skills)"

definition skillsParagraph :: "string \<times> string list \<Rightarrow> Paragraph" where
  "skillsParagraph entry =
     (case entry of
        (category, names) \<Rightarrow>
          (newParagraph
             [Run ((bodyRun (category @ '': ''))\<lparr>run_bold := Some True\<rparr>),
              Run (bodyRun (join '', '' names))])
            \<lparr>par_spacing_before := Some 40, par_spacing_after := Some 40\<rparr>)"

definition buildSkills :: "Skill list \<Rightarrow> error + Paragraph list" where
  "buildSkills skills =
     (if skills = [] then Inr []
      else
        (case groupSkills [] skills of
           Inl e \<Rightarrow> Inl e
         | Inr byCategory \<Rightarrow>
             Inr (foldl (\<lambda>children entry. children @ [skillsParagraph entry])
                    [sectionHeading ''Technical Skills''] (objectEntries byCategory))))"

section \<open>Certifications, education, summary\<close>

definition certificationParagraph :: "Certification \<Rightarrow> Paragraph" where
  "certificationParagraph cert =
     (let parts =
            pushIf (cert_issued cert) (\<lambda>d. formatDate (Some d))
              (pushIf (cert_issuer cert) id [cert_name cert])
      in (newParagraph [Run (bodyRun (join ('' '' @ EM_DASH @ '' '') parts))])
           \<lparr>par_bullet_level := Some 0, par_spacing_after := Some 40\<rparr>)"

definition buildCertifications :: "Certification list \<Rightarrow> Paragraph list" where
  "buildCertifications certifications =
     (if certifications = [] then []
      else foldl (\<lambda>children cert. children @ [certificationParagraph cert])
             [sectionHeading ''Certifications''] certifications)"

text \<open>What one turn of the loop of \<open>buildEducation\<close> pushes.\<close>

definition educationParagraphs :: "Education \<Rightarrow> Paragraph list" where
  "educationParagraphs edu =
     (let degreeLine =
            (if truthy (edu_field edu)
             then edu_degree edu @ '' in '' @ orElse (edu_field edu) []
             else edu_degree edu);
          rightPart =
            pushIf (edu_gpa edu) (\<lambda>g. ''GPA: '' @ g)
              (pushIf (edu_end_date edu) (\<lambda>d. formatDate (Some d)) []);
          institutionParts = pushIf (edu_location edu) id [edu_institution edu]
      in [(newParagraph
             [Run ((bodyRun degreeLine)\<lparr>run_bold := Some True\<rparr>),
              Run (bodyRun (if rightPart \<noteq> [] then '' | '' @ join '' | '' rightPart else []))])
            \<lparr>par_spacing_before := Some 80, par_spacing_after := Some 20\<rparr>,
          (newParagraph
             [Run ((bodyRun (join '', '' institutionParts))\<lparr>run_italics := Some True\<rparr>)])
            \<lparr>par_spacing_after := Some 40\<rparr>])"

definition buildEducation :: "Education list \<Rightarrow> Paragraph list" where
  "buildEducation education =
     (if education = [] then []
      else foldl (\<lambda>children edu. children @ educationParagraphs edu)
             [sectionHeading ''Education''] education)"

definition buildSummary :: "string option \<Rightarrow> Paragraph list" where
  "buildSummary summary =
     (if \<not> truthy summary then []
      else
        [sectionHeading ''Professional Summary'',
         (newParagraph [Run (bodyRun (orElse summary []))])
           \<lparr>par_spacing_before := Some 80, par_spacing_after := Some 120\<rparr>])"

section \<open>Writing the document\<close>

text \<open>
  What the script acts on: the files, by path; the standard output; the standard error
  stream; and the exit code once the process has been made to exit. A line of the error
  stream is a call of \<open>console.error\<close>, with its message and the error passed to it if
  any, or the report Node.js prints for an exception nothing caught.
\<close>

datatype StderrLine =
  ConsoleError string "error option"
| Uncaught error

record World =
  files :: "string \<Rightarrow> string option"
  console_log :: "string list"
  stderr :: "StderrLine list"
  exitCode :: "nat option"

text \<open>
  \<open>fs.writeFileSync(path, data)\<close> opens the file for writing, which creates it or
  truncates it, writes the data, and closes it. How a call goes is not decided by the
  script: it succeeds, or the file cannot be opened and nothing changes, or writing
  stops with an error after some of the data has reached the file. The error carries
  the system's code.
\<close>

datatype WriteOutcome =
  Written
| OpenFails string
| WriteFailsAfter nat string

definition writeFileSync ::
  "WriteOutcome \<Rightarrow> string \<Rightarrow> string \<Rightarrow> (string \<Rightarrow> string option) \<Rightarrow>
     (error + unit) \<times> (string \<Rightarrow> string option)" where
  "writeFileSync outcome path buffer fs =
     (case outcome of
        Written \<Rightarrow> (Inr (), fs(path \<mapsto> buffer))
      | OpenFails code \<Rightarrow> (Inl (FsError code), fs)
      | WriteFailsAfter n code \<Rightarrow> (Inl (FsError code), fs(path \<mapsto> take n buffer)))"

text \<open>
  The surroundings of the script: \<open>JSON.parse\<close>, read together with the shape of the
  payload, which throws a \<open>SyntaxError\<close> on a text that is not JSON and whose value for
  the JSON text \<open>null\<close> is \<open>None\<close>; \<open>Packer.toBuffer\<close> of the docx library, which
  serialises the document or rejects; and the outcome of the write.
\<close>

record Env =
  parseJSON :: "string \<Rightarrow> error + Payload option"
  toBuffer :: "Document \<Rightarrow> error + string"
  writeOutcome :: WriteOutcome

definition newDocument :: "Paragraph list \<Rightarrow> Document" where
  "newDocument children = \<lparr>doc_margin = 720, doc_children = children\<rparr>"

text \<open>
  The last three statements of each generator: pack, write, log. A failure leaves the
  function at once, with the world as it is at that point.
\<close>

definition packAndWrite :: "Env \<Rightarrow> string \<Rightarrow> Document \<Rightarrow> string \<Rightarrow> World \<Rightarrow> (error + unit) \<times> World" where
  "packAndWrite env label doc outputPath w =
     (case toBuffer env doc of
        Inl e \<Rightarrow> (Inl e, w)
      | Inr buffer \<Rightarrow>
          (case writeFileSync (writeOutcome env) outputPath buffer (files w) of
             (Inl e, fs) \<Rightarrow> (Inl e, w\<lparr>files := fs\<rparr>)
           | (Inr _, fs) \<Rightarrow>
               (Inr (),
                w\<lparr>files := fs,
                  console_log := console_log w @ [label @ '' generated: '' @ outputPath]\<rparr>)))"

text \<open>
  Each generator reads a property of \<open>data\<close> in its first statement; when \<open>data\<close> is
  \<open>null\<close> that read throws.
\<close>

definition nullData :: error where
  "nullData = TypeError ''Cannot read properties of null''"

definition generateResume :: "Env \<Rightarrow> Payload option \<Rightarrow> string \<Rightarrow> World \<Rightarrow> (error + unit) \<times> World" where
  "generateResume env data outputPath w =
     (case data of
        None \<Rightarrow> (Inl nullData, w)
      | Some d \<Rightarrow>
          (case buildSkills (orEmpty (data_skills d)) of
             Inl e \<Rightarrow> (Inl e, w)
           | Inr skillsSection \<Rightarrow>
               (let sections =
                      buildHeader (case data_personal d of None \<Rightarrow> emptyPersonal | Some p \<Rightarrow> p) @
                      buildExperience (orEmpty (data_experience d)) @
                      buildProjects (orEmpty (data_projects d)) False @
                      skillsSection @
                      buildCertifications (orEmpty (data_certifications d)) @
                      buildEducation (orEmpty (data_education d))
                in packAndWrite env ''Resume'' (newDocument sections) outputPath w)))"

definition generateCV :: "Env \<Rightarrow> Payload option \<Rightarrow> string \<Rightarrow> World \<Rightarrow> (error + unit) \<times> World" where
  "generateCV env data outputPath w =
     (case data of
        None \<Rightarrow> (Inl nullData, w)
      | Some d \<Rightarrow>
          (case buildSkills (orEmpty (data_skills d)) of
             Inl e \<Rightarrow> (Inl e, w)
           | Inr skillsSection \<Rightarrow>
               (let sections =
                      buildHeader (case data_personal d of None \<Rightarrow> emptyPersonal | Some p \<Rightarrow> p) @
                      (if truthy (data_summary d) then buildSummary (data_summary d) else []) @
                      buildExperience (orEmpty (data_experience d)) @
                      buildProjects (orEmpty (data_projects d)) True @
                      skillsSection @
                      buildCertifications (orEmpty (data_certifications d)) @
                      buildEducation (orEmpty (data_education d))
                in packAndWrite env ''CV'' (newDocument sections) outputPath w)))"

text \<open>
  \<open>content.split(/\n\n+/)\<close>: the pieces between the runs of two or more line feeds.
\<close>

fun splitBlankLines :: "string \<Rightarrow> string list"
  and afterBlankLines :: "string \<Rightarrow> string list" where
  "splitBlankLines [] = [[]]"
| "splitBlankLines [c] = [[c]]"
| "splitBlankLines (c # d # cs) =
     (if c = CHR 0x0A \<and> d = CHR 0x0A then [] # afterBlankLines cs
      else (case splitBlankLines (d # cs) of [] \<Rightarrow> [[c]] | p # ps \<Rightarrow> (c # p) # ps))"
| "afterBlankLines [] = [[]]"
| "afterBlankLines (c # cs) =
     (if c = CHR 0x0A then afterBlankLines cs else splitBlankLines (c # cs))"

definition generateCoverLetter :: "Env \<Rightarrow> Payload option \<Rightarrow> string \<Rightarrow> World \<Rightarrow> (error + unit) \<times> World" where
  "generateCoverLetter env data outputPath w =
     (case data of
        None \<Rightarrow> (Inl nullData, w)
      | Some d \<Rightarrow>
          (let personal = (case data_personal d of None \<Rightarrow> emptyPersonal | Some p \<Rightarrow> p);
               content = splitBlankLines (orElse (data_content d) []);
               children =
                 [(newParagraph
                     [Run ((textRun (orElse (personal_name personal) []) FONT_SIZE_NAME)
                             \<lparr>run_bold := Some True\<rparr>)])
                    \<lparr>par_alignment := Some CENTER, par_spacing_after := Some 60\<rparr>];
               contactParts =
                 pushIf (personal_email personal) id
                   (pushIf (personal_phone personal) id
                      (pushIf (personal_location personal) id []));
               children =
                 (if contactParts \<noteq> [] then
                    children @
                    [(newParagraph [Run (contactRun (join '' | '' contactParts))])
                       \<lparr>par_alignment := Some CENTER, par_spacing_after := Some 80\<rparr>]
                  else children);
               children =
                 children @
                 pushIf (data_date d)
                   (\<lambda>date. (newParagraph [Run (bodyRun date)])\<lparr>par_spacing_after := Some 80\<rparr>) [];
               children =
                 foldl
                   (\<lambda>children para.
                      foldl
                        (\<lambda>children line.
                           children @
                           [(newParagraph [Run (bodyRun line)])\<lparr>par_spacing_after := Some 60\<rparr>])
                        children (split CHR 0x0A para))
                   children content
           in packAndWrite env ''Cover letter'' (newDocument children) outputPath w))"

section \<open>The script\<close>

text \<open>
  The arguments after the script's name, \<open>process.argv.slice(2)\<close>, and what the script
  reads off them. \<open>args.indexOf(x)\<close> is the first position of \<open>x\<close>, and \<open>args[i]\<close> is
  \<open>undefined\<close> past the end.
\<close>

fun arrayIndexOf :: "string list \<Rightarrow> string \<Rightarrow> nat option" where
  "arrayIndexOf [] x = None"
| "arrayIndexOf (y # ys) x = (if y = x then Some 0 else map_option Suc (arrayIndexOf ys x))"

definition argAt :: "string list \<Rightarrow> nat \<Rightarrow> string option" where
  "argAt args i = (if i < length args then Some (args ! i) else None)"

definition docTypeOf :: "string list \<Rightarrow> string option" where
  "docTypeOf args =
     (case arrayIndexOf args ''--type'' of
        Some typeFlag \<Rightarrow> argAt args (typeFlag + 1)
      | None \<Rightarrow> Some ''resume'')"

definition inputFileOf :: "string list \<Rightarrow> string option" where
  "inputFileOf args =
     (case arrayIndexOf args ''--type'' of
        Some typeFlag \<Rightarrow> argAt args (typeFlag + 2)
      | None \<Rightarrow> argAt args 0)"

definition outputFileOf :: "string list \<Rightarrow> string option" where
  "outputFileOf args =
     (case arrayIndexOf args ''--type'' of
        Some typeFlag \<Rightarrow> argAt args (typeFlag + 3)
      | None \<Rightarrow> argAt args 1)"

text \<open>\<open>run\<close>: the generator the document type selects.\<close>

definition run :: "Env \<Rightarrow> string option \<Rightarrow> Payload option \<Rightarrow> string \<Rightarrow> World \<Rightarrow> (error + unit) \<times> World" where
  "run env docType data outputFile w =
     (if docType = Some ''coverletter'' then generateCoverLetter env data outputFile w
      else if docType = Some ''cv'' then generateCV env data outputFile w
      else generateResume env data outputFile w)"

text \<open>
  The last statement of the script, \<open>run().catch(...)\<close>: a failure of \<open>run\<close> is written
  to the error stream, with the error itself, and the process exits with code 1.
\<close>

definition runAndCatch :: "Env \<Rightarrow> string option \<Rightarrow> Payload option \<Rightarrow> string \<Rightarrow> World \<Rightarrow> World" where
  "runAndCatch env docType data outputFile w =
     (case run env docType data outputFile w of
        (Inl err, w') \<Rightarrow>
          w'\<lparr>stderr := stderr w' @ [ConsoleError ''Error generating document:'' (Some err)],
             exitCode := Some 1\<rparr>
      | (Inr _, w') \<Rightarrow> w')"

text \<open>
  An exception thrown by a statement of the script itself is caught by nothing:
  Node.js prints it to the error stream and the process exits with code 1.
\<close>

definition uncaughtException :: "error \<Rightarrow> World \<Rightarrow> World" where
  "uncaughtException e w = w\<lparr>stderr := stderr w @ [Uncaught e], exitCode := Some 1\<rparr>"

definition usage :: string where
  "usage = ''Usage: node resume_template.js [--type resume|coverletter|cv] <input.json> <output.docx>''"

text \<open>
  The statements of the script after its functions: the check of the arguments, the
  reading of the input file, which throws when there is no such file, the parsing,
  and the run.
\<close>

definition script :: "Env \<Rightarrow> string list \<Rightarrow> World \<Rightarrow> World" where
  "script env args w =
     (if \<not> truthy (inputFileOf args) \<or> \<not> truthy (outputFileOf args) then
        w\<lparr>stderr := stderr w @ [ConsoleError usage None], exitCode := Some 1\<rparr>
      else
        (let inputFile = orElse (inputFileOf args) [];
             outputFile = orElse (outputFileOf args) []
         in case files w inputFile of
              None \<Rightarrow> uncaughtException (FsError ''ENOENT'') w
            | Some rawData \<Rightarrow>
                (case parseJSON env rawData of
                   Inl e \<Rightarrow> uncaughtException e w
                 | Inr data \<Rightarrow> runAndCatch env (docTypeOf args) data outputFile w)))"

section \<open>The tables of the module in a store\<close>

text \<open>
  \<open>PRIORITY_BOLD\<close>, \<open>NEVER_BOLD\<close> and \<open>SKIP_LEADERSHIP_STARTS\<close> are objects of the
  module, which a call could change: \<open>const\<close> fixes the binding, not the contents. To
  say what a call reads and what it leaves behind, the arrays stand in a store, by
  reference; \<open>nextRef\<close> is the reference the next new array gets.
\<close>

record Store =
  heap :: "nat \<Rightarrow> string list option"
  nextRef :: nat

definition PRIORITY_BOLD_ref :: nat where
  "PRIORITY_BOLD_ref = 0"

definition NEVER_BOLD_ref :: nat where
  "NEVER_BOLD_ref = 1"

definition SKIP_LEADERSHIP_STARTS_ref :: nat where
  "SKIP_LEADERSHIP_STARTS_ref = 2"

text \<open>The store once the three declarations of the module have run.\<close>

definition moduleStore :: Store where
  "moduleStore =
     \<lparr>heap = [PRIORITY_BOLD_ref \<mapsto> PRIORITY_BOLD, NEVER_BOLD_ref \<mapsto> NEVER_BOLD,
              SKIP_LEADERSHIP_STARTS_ref \<mapsto> SKIP_LEADERSHIP_STARTS],
      nextRef = 3\<rparr>"

definition arrayAt :: "Store \<Rightarrow> nat \<Rightarrow> string list" where
  "arrayAt st r = (case heap st r of None \<Rightarrow> [] | Some xs \<Rightarrow> xs)"

text \<open>
  \<open>array.filter(keep)\<close> returns a new array and leaves the one it reads as it is;
  \<open>array.sort(compare)\<close> sorts the array in place and returns the same array.
\<close>

definition arrayFilter :: "Store \<Rightarrow> nat \<Rightarrow> (string \<Rightarrow> bool) \<Rightarrow> nat \<times> Store" where
  "arrayFilter st r keep =
     (nextRef st,
      st\<lparr>heap := (heap st)(nextRef st \<mapsto> filter keep (arrayAt st r)),
         nextRef := nextRef st + 1\<rparr>)"

definition arraySort :: "Store \<Rightarrow> nat \<Rightarrow> (string \<Rightarrow> int) \<Rightarrow> nat \<times> Store" where
  "arraySort st r key = (r, st\<lparr>heap := (heap st)(r \<mapsto> sort_key key (arrayAt st r))\<rparr>)"

text \<open>
  \<open>splitBulletWithBolds\<close> once more, statement by statement, now reading the tables
  from the store and returning the store it leaves. The segments are local to the call.
\<close>

definition splitBulletWithBolds_st ::
  "Store \<Rightarrow> string option \<Rightarrow> string list option \<Rightarrow> nat \<Rightarrow> TextRun list \<times> Store" where
  "splitBulletWithBolds_st st text matchedKeywords maxBolds =
     (case text of
        None \<Rightarrow> ([textRun [] FONT_SIZE_BODY], st)
      | Some t \<Rightarrow>
          if t = [] then ([textRun [] FONT_SIZE_BODY], st)
          else if \<exists>prefix \<in> set (arrayAt st SKIP_LEADERSHIP_STARTS_ref). startsWith (trim t) prefix
          then ([textRun t FONT_SIZE_BODY], st)
          else
            (let (termsToCheck, st1) =
                   arrayFilter st PRIORITY_BOLD_ref
                     (\<lambda>t. t \<notin> set (arrayAt st NEVER_BOLD_ref) \<and>
                        (case matchedKeywords of
                           None \<Rightarrow> True
                         | Some kws \<Rightarrow>
                             kws = [] \<or>
                             (\<exists>kw \<in> set kws.
                                includes_str (toLowerCase kw) (toLowerCase t) \<or>
                                includes_str (toLowerCase t) (toLowerCase kw))));
                 (sortedTerms, st2) = arraySort st1 termsToCheck (\<lambda>t. - int (length t))
             in (map segmentRun
                   (boldTerms maxBolds (length t div 2) (arrayAt st2 sortedTerms)
                      [\<lparr>seg_text = t, seg_bold = False, startOffset = 0\<rparr>] 0),
                 st2)))"

section \<open>Notions used in the statements\<close>

text \<open>
  The offset at which span \<open>i\<close> of a list of spans starts: the length of the spans
  before it.
\<close>

definition spanStart :: "TextRun list \<Rightarrow> nat \<Rightarrow> nat" where
  "spanStart spans i = length (concat (map run_text (take i spans)))"

text \<open>
  The invariant of the segment list: every segment's \<open>startOffset\<close> is the length of
  the segments before it, counted from \<open>n\<close>.
\<close>

fun offsetsFrom :: "nat \<Rightarrow> segment list \<Rightarrow> bool" where
  "offsetsFrom n [] = True"
| "offsetsFrom n (seg # segs) = (startOffset seg = n \<and> offsetsFrom (n + length (seg_text seg)) segs)"

text \<open>The segments that replace \<open>seg\<close> when a term of length \<open>n\<close> is found in it at \<open>idx\<close>.\<close>

definition pieces :: "segment \<Rightarrow> nat \<Rightarrow> nat \<Rightarrow> segment list" where
  "pieces seg idx n =
     (if slice (seg_text seg) 0 idx \<noteq> [] then
        [\<lparr>seg_text = slice (seg_text seg) 0 idx, seg_bold = False, startOffset = startOffset seg\<rparr>]
      else []) @
     [\<lparr>seg_text = slice (seg_text seg) idx (idx + n), seg_bold = True,
       startOffset = startOffset seg + idx\<rparr>] @
     (if sliceFrom (seg_text seg) (idx + n) \<noteq> [] then
        [\<lparr>seg_text = sliceFrom (seg_text seg) (idx + n), seg_bold = False,
          startOffset = startOffset seg + idx + n\<rparr>]
      else [])"

text \<open>
  The projects a list of paragraphs renders, read off the paragraphs: a project's title
  paragraph is the one that is neither a heading nor a bullet, and its first run is the
  project's name.
\<close>

definition renderedProjectNames :: "Paragraph list \<Rightarrow> string list" where
  "renderedProjectNames ps =
     concat (map (\<lambda>p. if par_heading p = None \<and> par_bullet_level p = None
                       then (case par_children p of Run r # _ \<Rightarrow> [run_text r] | _ \<Rightarrow> [])
                       else []) ps)"

text \<open>
  An ISO year and month, \<open>YYYY-MM\<close>: four digits, a dash, and two digits that are a
  month number from 01 to 12.
\<close>

definition isoYearMonth :: "string \<Rightarrow> bool" where
  "isoYearMonth s \<longleftrightarrow>
     length s = 7 \<and> list_all isDigit (take 4 s) \<and> s ! 4 = CHR ''-'' \<and>
     list_all isDigit (drop 5 s) \<and> 1 \<le> digitsValue (drop 5 s) \<and> digitsValue (drop 5 s) \<le> 12"

text \<open>
  A date string from which a month can be read: it has at least two components on
  splitting at the dashes, and \<open>parseInt\<close> reads an integer from 1 to 12 off the second.
\<close>

definition readableMonth :: "string \<Rightarrow> bool" where
  "readableMonth s \<longleftrightarrow>
     (case split CHR ''-'' s of
        year # part1 # _ \<Rightarrow>
          (case parseInt part1 of None \<Rightarrow> False | Some n \<Rightarrow> 1 \<le> n \<and> n \<le> 12)
      | _ \<Rightarrow> False)"

text \<open>
  The values among some optional fields that are present (and not empty), in order.
\<close>

definition presentValues :: "string option list \<Rightarrow> string list" where
  "presentValues vs =
     concat (map (\<lambda>v. case v of None \<Rightarrow> [] | Some s \<Rightarrow> if s \<noteq> [] then [s] else []) vs)"

text \<open>The texts a list of paragraphs shows, in order, those of hyperlinks included.\<close>

fun childTexts :: "ParagraphChild \<Rightarrow> string list" where
  "childTexts (Run r) = [run_text r]"
| "childTexts (ExternalHyperlink l rs) = map run_text rs"

definition renderedTexts :: "Paragraph list \<Rightarrow> string list" where
  "renderedTexts ps = concat (map (\<lambda>p. concat (map childTexts (par_children p))) ps)"

text \<open>A list of texts with a separator between neighbours.\<close>

fun separated :: "string \<Rightarrow> string list \<Rightarrow> string list" where
  "separated sep [] = []"
| "separated sep [x] = [x]"
| "separated sep (x # y # ys) = x # sep # separated sep (y # ys)"

text \<open>The payload \<open>{}\<close>, and a world with no files and nothing printed.\<close>

definition emptyPayload :: Payload where
  "emptyPayload =
     \<lparr>data_personal = None, data_summary = None, data_experience = None, data_projects = None,
      data_skills = None, data_certifications = None, data_education = None,
      data_content = None, data_date = None\<rparr>"

definition emptyWorld :: World where
  "emptyWorld = \<lparr>files = Map.empty, console_log = [], stderr = [], exitCode = None\<rparr>"

text \<open>
  The grouping the specification asks for, written from its words: an ordered mapping
  keyed by the category strings in the order in which each is first seen, each with the
  names of its skills in input order. \<open>categoryOf\<close> is the category under which the
  script files a skill.
\<close>

definition categoryOf :: "Skill \<Rightarrow> string" where
  "categoryOf skill = orElse (skill_category skill) ''Other''"

fun firstOccurrences :: "string list \<Rightarrow> string list" where
  "firstOccurrences [] = []"
| "firstOccurrences (c # cs) = c # firstOccurrences (filter (\<lambda>d. d \<noteq> c) cs)"

definition firstSeenGroups :: "Skill list \<Rightarrow> (string \<times> string list) list" where
  "firstSeenGroups skills =
     map (\<lambda>c. (c, map skill_name (filter (\<lambda>s. categoryOf s = c) skills)))
       (firstOccurrences (map categoryOf skills))"

definition namesIn :: "string \<Rightarrow> Skill list \<Rightarrow> string list" where
  "namesIn c skills = map skill_name (filter (\<lambda>s. categoryOf s = c) skills)"

text \<open>
  The store after a sequence of calls of \<open>splitBulletWithBolds\<close>, each with its three
  arguments.
\<close>

fun afterCalls :: "Store \<Rightarrow> (string option \<times> string list option \<times> nat) list \<Rightarrow> Store" where
  "afterCalls st [] = st"
| "afterCalls st ((text, matchedKeywords, maxBolds) # calls) =
     afterCalls (snd (splitBulletWithBolds_st st text matchedKeywords maxBolds)) calls"

text \<open>
  The module has been loaded: its three tables lie below the reference the next new
  array gets. \<open>moduleTables\<close> is what the three tables hold.
\<close>

definition moduleLoaded :: "Store \<Rightarrow> bool" where
  "moduleLoaded st \<longleftrightarrow>
     PRIORITY_BOLD_ref < nextRef st \<and> NEVER_BOLD_ref < nextRef st \<and>
     SKIP_LEADERSHIP_STARTS_ref < nextRef st"

definition moduleTables :: "Store \<Rightarrow> string list \<times> string list \<times> string list" where
  "moduleTables st =
     (arrayAt st PRIORITY_BOLD_ref, arrayAt st NEVER_BOLD_ref, arrayAt st SKIP_LEADERSHIP_STARTS_ref)"

text \<open>
  A parser that knows two JSON texts and rejects every other text; surroundings in
  which the document is packed and the write fails after two bytes; and a world whose
  only file is the input file.
\<close>

definition exampleParse :: "string \<Rightarrow> error + Payload option" where
  "exampleParse rawData =
     (if rawData = ''{}'' then Inr (Some emptyPayload)
      else if rawData = ''null'' then Inr None
      else Inl (SyntaxError ''Unexpected token''))"

definition failingWriteEnv :: Env where
  "failingWriteEnv =
     \<lparr>parseJSON = exampleParse, toBuffer = (\<lambda>doc. Inr ''PK-docx-bytes''),
      writeOutcome = WriteFailsAfter 2 ''ENOSPC''\<rparr>"

definition worldWithInput :: "string \<Rightarrow> World" where
  "worldWithInput rawData = emptyWorld\<lparr>files := [''in.json'' \<mapsto> rawData]\<rparr>"

section \<open>The emphasis invariant\<close>

lemma offsetsFrom_append:
  "offsetsFrom n (xs @ ys) \<longleftrightarrow> offsetsFrom n xs \<and> offsetsFrom (n + length (concat (map seg_text xs))) ys"
  by (induction xs arbitrary: n) (auto simp: add.assoc)

lemma length_toLowerCase [simp]: "length (toLowerCase s) = length s"
  by (simp add: toLowerCase_def)

lemma indexOf_bound: "indexOf s t = Some i \<Longrightarrow> i + length t \<le> length s"
proof (induction s arbitrary: i)
  case Nil
  then show ?case by (simp split: if_splits)
next
  case (Cons c cs)
  show ?case
  proof (cases "startsWith (c # cs) t")
    case True
    then have "length (take (length t) (c # cs)) = length t"
      by (simp add: startsWith_def)
    then have "length t \<le> length (c # cs)" by simp
    with True Cons.prems show ?thesis by simp
  next
    case False
    with Cons.prems obtain j where "indexOf cs t = Some j" "i = Suc j" by auto
    with Cons.IH show ?thesis by simp
  qed
qed

lemma slice_parts: "slice s 0 i @ slice s i (i + n) @ sliceFrom s (i + n) = s"
proof -
  have "take n (drop i s) @ drop (i + n) s = drop i s"
    by (metis add.commute append_take_drop_id drop_drop)
  then show ?thesis by (simp add: slice_def sliceFrom_def)
qed

lemma pieces_concat: "concat (map seg_text (pieces seg idx n)) = seg_text seg"
proof -
  have "concat (map seg_text (pieces seg idx n)) =
        slice (seg_text seg) 0 idx @ slice (seg_text seg) idx (idx + n) @ sliceFrom (seg_text seg) (idx + n)"
    by (simp add: pieces_def)
  then show ?thesis by (simp add: slice_parts)
qed

lemma pieces_bold: "length (filter seg_bold (pieces seg idx n)) = 1"
  by (simp add: pieces_def)

lemma pieces_bold_start: "s \<in> set (pieces seg idx n) \<Longrightarrow> seg_bold s \<Longrightarrow> startOffset s = startOffset seg + idx"
  by (auto simp: pieces_def split: if_splits)

lemma pieces_offsets:
  assumes "idx + n \<le> length (seg_text seg)"
  shows "offsetsFrom (startOffset seg) (pieces seg idx n)"
  using assms by (auto simp: pieces_def slice_def sliceFrom_def min_def)

lemma boldTerm_True: "boldTerm term midpoint True segs = (segs, True)"
  by (induction segs) (auto simp: boldTerm.simps)

lemma boldTerm_Cons:
  "boldTerm term midpoint didBold (seg # segs) =
     (seg # fst (boldTerm term midpoint didBold segs), snd (boldTerm term midpoint didBold segs)) \<or>
   (\<exists>idx. \<not> seg_bold seg \<and> \<not> didBold \<and>
      indexOf (toLowerCase (seg_text seg)) (toLowerCase term) = Some idx \<and>
      startOffset seg + idx < midpoint \<and>
      boldTerm term midpoint didBold (seg # segs) = (pieces seg idx (length term) @ segs, True))"
proof (cases "seg_bold seg \<or> didBold")
  case True
  then show ?thesis by (simp add: case_prod_beta boldTerm.simps)
next
  case unbolded: False
  show ?thesis
  proof (cases "indexOf (toLowerCase (seg_text seg)) (toLowerCase term)")
    case None
    with unbolded show ?thesis by (simp add: case_prod_beta boldTerm.simps)
  next
    case (Some idx)
    show ?thesis
    proof (cases "midpoint \<le> startOffset seg + idx")
      case True
      with unbolded Some show ?thesis by (simp add: case_prod_beta boldTerm.simps)
    next
      case False
      with unbolded Some
      have "boldTerm term midpoint didBold (seg # segs) = (pieces seg idx (length term) @ segs, True)"
        by (simp add: Let_def pieces_def boldTerm_True boldTerm.simps)
      with unbolded Some False show ?thesis by simp
    qed
  qed
qed

declare boldTerm.simps [simp del]

lemma boldTerm_Nil [simp]: "boldTerm term midpoint didBold [] = ([], didBold)"
  by (simp add: boldTerm.simps)

lemma boldTerm_concat:
  "concat (map seg_text (fst (boldTerm term midpoint didBold segs))) = concat (map seg_text segs)"
proof (induction segs)
  case Nil
  show ?case by simp
next
  case (Cons seg segs)
  show ?case
    using boldTerm_Cons [of "term" midpoint didBold seg segs] Cons.IH
    by (auto simp: pieces_concat)
qed


lemma boldTerm_count:
  "length (filter seg_bold (fst (boldTerm term midpoint didBold segs))) =
   length (filter seg_bold segs) +
     (if snd (boldTerm term midpoint didBold segs) \<and> \<not> didBold then 1 else 0)"
proof (induction segs)
  case Nil
  show ?case by simp
next
  case (Cons seg segs)
  show ?case
    using boldTerm_Cons [of "term" midpoint didBold seg segs] Cons.IH
    by (auto simp: pieces_bold)
qed

lemma boldTerm_offsets:
  "offsetsFrom n segs \<Longrightarrow> offsetsFrom n (fst (boldTerm term midpoint didBold segs))"
proof (induction segs arbitrary: n)
  case Nil
  then show ?case by simp
next
  case (Cons seg segs)
  from boldTerm_Cons [of "term" midpoint didBold seg segs] show ?case
  proof (elim disjE exE conjE)
    assume "boldTerm term midpoint didBold (seg # segs) =
      (seg # fst (boldTerm term midpoint didBold segs), snd (boldTerm term midpoint didBold segs))"
    with Cons show ?thesis by simp
  next
    fix idx
    assume found: "indexOf (toLowerCase (seg_text seg)) (toLowerCase term) = Some idx"
      and eq: "boldTerm term midpoint didBold (seg # segs) = (pieces seg idx (length term) @ segs, True)"
    from indexOf_bound [OF found] have "idx + length term \<le> length (seg_text seg)" by simp
    then have "offsetsFrom (startOffset seg) (pieces seg idx (length term))"
      by (rule pieces_offsets)
    with Cons.prems eq show ?thesis
      by (simp add: offsetsFrom_append pieces_concat)
  qed
qed

lemma boldTerm_bold_start:
  assumes "\<forall>s \<in> set segs. seg_bold s \<longrightarrow> startOffset s < midpoint"
  shows "\<forall>s \<in> set (fst (boldTerm term midpoint didBold segs)). seg_bold s \<longrightarrow> startOffset s < midpoint"
  using assms
proof (induction segs)
  case Nil
  then show ?case by simp
next
  case (Cons seg segs)
  from Cons have IH: "\<forall>s \<in> set (fst (boldTerm term midpoint didBold segs)).
      seg_bold s \<longrightarrow> startOffset s < midpoint"
    by simp
  from boldTerm_Cons [of "term" midpoint didBold seg segs] show ?case
  proof (elim disjE exE conjE)
    assume "boldTerm term midpoint didBold (seg # segs) =
      (seg # fst (boldTerm term midpoint didBold segs), snd (boldTerm term midpoint didBold segs))"
    with IH Cons.prems show ?thesis by simp
  next
    fix idx
    assume lt: "startOffset seg + idx < midpoint"
      and eq: "boldTerm term midpoint didBold (seg # segs) = (pieces seg idx (length term) @ segs, True)"
    have "\<forall>s \<in> set (pieces seg idx (length term)). seg_bold s \<longrightarrow> startOffset s < midpoint"
      using lt by (auto dest: pieces_bold_start)
    with eq Cons.prems show ?thesis by auto
  qed
qed

lemma boldTerms_concat:
  "concat (map seg_text (boldTerms maxBolds midpoint terms segs boldCount)) = concat (map seg_text segs)"
proof (induction terms arbitrary: segs boldCount)
  case Nil
  show ?case by simp
next
  case (Cons t terms)
  show ?case
    using boldTerm_concat [of t midpoint False segs]
    by (simp add: Cons.IH case_prod_beta)
qed

lemma boldTerms_offsets:
  "offsetsFrom n segs \<Longrightarrow> offsetsFrom n (boldTerms maxBolds midpoint terms segs boldCount)"
proof (induction terms arbitrary: segs boldCount)
  case Nil
  then show ?case by simp
next
  case (Cons t terms)
  then show ?case
    by (simp add: case_prod_beta boldTerm_offsets)
qed

lemma boldTerms_bold_start:
  "\<forall>s \<in> set segs. seg_bold s \<longrightarrow> startOffset s < midpoint \<Longrightarrow>
   \<forall>s \<in> set (boldTerms maxBolds midpoint terms segs boldCount).
     seg_bold s \<longrightarrow> startOffset s < midpoint"
proof (induction terms arbitrary: segs boldCount)
  case Nil
  then show ?case by simp
next
  case (Cons t terms)
  from Cons.prems
  have new: "\<forall>s \<in> set (fst (boldTerm t midpoint False segs)). seg_bold s \<longrightarrow> startOffset s < midpoint"
    by (rule boldTerm_bold_start)
  show ?case
    using Cons.IH [OF new] Cons.IH [OF Cons.prems] Cons.prems
    by (simp add: case_prod_beta)
qed

lemma boldTerms_count:
  "length (filter seg_bold segs) \<le> boldCount \<Longrightarrow> boldCount \<le> maxBolds \<Longrightarrow>
   length (filter seg_bold (boldTerms maxBolds midpoint terms segs boldCount)) \<le> maxBolds"
proof (induction terms arbitrary: segs boldCount)
  case Nil
  then show ?case by simp
next
  case (Cons t terms)
  show ?case
  proof (cases "boldCount \<ge> maxBolds")
    case True
    with Cons.prems show ?thesis by simp
  next
    case False
    show ?thesis
    proof (cases "snd (boldTerm t midpoint False segs)")
      case True
      with boldTerm_count [of t midpoint False segs] Cons.prems
      have "length (filter seg_bold (fst (boldTerm t midpoint False segs))) \<le> boldCount + 1"
        by simp
      moreover from False have "boldCount + 1 \<le> maxBolds" by simp
      ultimately have "length (filter seg_bold
          (boldTerms maxBolds midpoint terms (fst (boldTerm t midpoint False segs)) (boldCount + 1))) \<le> maxBolds"
        by (rule Cons.IH)
      with True False show ?thesis by (simp add: case_prod_beta)
    next
      case noBold: False
      with False Cons.IH [OF Cons.prems] show ?thesis by (simp add: case_prod_beta)
    qed
  qed
qed

lemma offsetsFrom_nth:
  "offsetsFrom n segs \<Longrightarrow> i < length segs \<Longrightarrow>
   startOffset (segs ! i) = n + length (concat (map seg_text (take i segs)))"
proof (induction segs arbitrary: n i)
  case Nil
  then show ?case by simp
next
  case (Cons seg segs)
  then show ?case by (cases i) auto
qed

lemma run_text_segmentRun [simp]: "run_text (segmentRun seg) = seg_text seg"
  by (simp add: segmentRun_def textRun_def)

lemma emphasized_segmentRun [simp]: "emphasized (segmentRun seg) = seg_bold seg"
  by (simp add: segmentRun_def emphasized_def)

lemma emphasized_textRun [simp]: "\<not> emphasized (textRun t sz)"
  by (simp add: emphasized_def textRun_def)

lemma run_text_textRun [simp]: "run_text (textRun t sz) = t"
  by (simp add: textRun_def)

lemma segments_invariant:
  fixes t :: string and maxBolds :: nat and terms :: "string list"
  defines "segs \<equiv> boldTerms maxBolds (length t div 2) terms [\<lparr>seg_text = t, seg_bold = False, startOffset = 0\<rparr>] 0"
  shows "concat (map seg_text segs) = t"
    and "length (filter seg_bold segs) \<le> maxBolds"
    and "offsetsFrom 0 segs"
    and "\<forall>s \<in> set segs. seg_bold s \<longrightarrow> startOffset s < length t div 2"
proof -
  show "concat (map seg_text segs) = t"
    unfolding segs_def by (simp add: boldTerms_concat)
  show "length (filter seg_bold segs) \<le> maxBolds"
    unfolding segs_def by (rule boldTerms_count) simp_all
  show "offsetsFrom 0 segs"
    unfolding segs_def by (rule boldTerms_offsets) simp
  show "\<forall>s \<in> set segs. seg_bold s \<longrightarrow> startOffset s < length t div 2"
    unfolding segs_def by (rule boldTerms_bold_start) simp
qed

text \<open>
  Claim C1. For every bullet text, every list of matched keywords (or none) and every
  cap \<open>maxSpans\<close>, the spans \<open>splitBulletWithBolds\<close> returns, put together in order, are
  the bullet text; at most \<open>maxSpans\<close> of them are emphasized; and every emphasized
  span starts before the midpoint \<open>length bulletText div 2\<close>.
\<close>

theorem splitBulletWithBolds_emphasis_invariant:
  "concat (map run_text (splitBulletWithBolds (Some bulletText) matchedKeywords maxSpans)) = bulletText \<and>
   length (filter emphasized (splitBulletWithBolds (Some bulletText) matchedKeywords maxSpans)) \<le> maxSpans \<and>
   (\<forall>i < length (splitBulletWithBolds (Some bulletText) matchedKeywords maxSpans).
      emphasized (splitBulletWithBolds (Some bulletText) matchedKeywords maxSpans ! i) \<longrightarrow>
      spanStart (splitBulletWithBolds (Some bulletText) matchedKeywords maxSpans) i < length bulletText div 2)"
proof -
  define segs where "segs =
    boldTerms maxSpans (length bulletText div 2) (sortedTerms matchedKeywords)
      [\<lparr>seg_text = bulletText, seg_bold = False, startOffset = 0\<rparr>] 0"
  note inv = segments_invariant [where t = bulletText and maxBolds = maxSpans
      and terms = "sortedTerms matchedKeywords", folded segs_def]
  have plain: "concat (map run_text [textRun bulletText FONT_SIZE_BODY]) = bulletText \<and>
      length (filter emphasized [textRun bulletText FONT_SIZE_BODY]) \<le> maxSpans \<and>
      (\<forall>i < length [textRun bulletText FONT_SIZE_BODY].
         emphasized ([textRun bulletText FONT_SIZE_BODY] ! i) \<longrightarrow>
         spanStart [textRun bulletText FONT_SIZE_BODY] i < length bulletText div 2)"
    by simp
  have split: "concat (map run_text (map segmentRun segs)) = bulletText \<and>
      length (filter emphasized (map segmentRun segs)) \<le> maxSpans \<and>
      (\<forall>i < length (map segmentRun segs).
         emphasized (map segmentRun segs ! i) \<longrightarrow>
         spanStart (map segmentRun segs) i < length bulletText div 2)"
  proof (intro conjI allI impI)
    show "concat (map run_text (map segmentRun segs)) = bulletText"
      using inv(1) by (simp add: comp_def)
    show "length (filter emphasized (map segmentRun segs)) \<le> maxSpans"
      using inv(2) by (simp add: filter_map comp_def)
  next
    fix i
    assume i: "i < length (map segmentRun segs)" and e: "emphasized (map segmentRun segs ! i)"
    from i e have "seg_bold (segs ! i)" by simp
    with inv(4) i have "startOffset (segs ! i) < length bulletText div 2" by simp
    moreover from offsetsFrom_nth [OF inv(3), where i = i] i
    have "startOffset (segs ! i) = length (concat (map seg_text (take i segs)))" by simp
    moreover have "spanStart (map segmentRun segs) i = length (concat (map seg_text (take i segs)))"
      by (simp add: spanStart_def take_map comp_def)
    ultimately show "spanStart (map segmentRun segs) i < length bulletText div 2" by simp
  qed
  show ?thesis
  proof (cases "bulletText = [] \<or> (\<exists>prefix \<in> set SKIP_LEADERSHIP_STARTS. startsWith (trim bulletText) prefix)")
    case True
    then have "splitBulletWithBolds (Some bulletText) matchedKeywords maxSpans = [textRun bulletText FONT_SIZE_BODY]"
      by (auto simp: splitBulletWithBolds_def)
    with plain show ?thesis by simp
  next
    case False
    then have "splitBulletWithBolds (Some bulletText) matchedKeywords maxSpans = map segmentRun segs"
      by (auto simp: splitBulletWithBolds_def segs_def)
    with split show ?thesis by simp
  qed
qed

theorem splitBulletWithBolds_emphasis_invariant_witness:
  "concat (map run_text
     (splitBulletWithBolds (Some ''Built Python ETL jobs for finance reporting'')
        (Some [''Python'']) 2)) = ''Built Python ETL jobs for finance reporting'' \<and>
   length (filter emphasized
     (splitBulletWithBolds (Some ''Built Python ETL jobs for finance reporting'')
        (Some [''Python'']) 2)) \<le> 2 \<and>
   emphasized
     (splitBulletWithBolds (Some ''Built Python ETL jobs for finance reporting'')
        (Some [''Python'']) 2 ! 1) \<and>
   spanStart
     (splitBulletWithBolds (Some ''Built Python ETL jobs for finance reporting'')
        (Some [''Python'']) 2) 1 < length ''Built Python ETL jobs for finance reporting'' div 2"
proof -
  have spans: "splitBulletWithBolds (Some ''Built Python ETL jobs for finance reporting'')
      (Some [''Python'']) 2 =
    [(textRun ''Built '' FONT_SIZE_BODY)\<lparr>run_bold := Some False\<rparr>,
     (textRun ''Python'' FONT_SIZE_BODY)\<lparr>run_bold := Some True\<rparr>,
     (textRun '' ETL jobs for finance reporting'' FONT_SIZE_BODY)\<lparr>run_bold := Some False\<rparr>]"
    by code_simp
  have bold: "emphasized
     (splitBulletWithBolds (Some ''Built Python ETL jobs for finance reporting'')
        (Some [''Python'']) 2 ! 1)"
    unfolding spans by (simp add: emphasized_def)
  have len: "1 < length (splitBulletWithBolds (Some ''Built Python ETL jobs for finance reporting'')
        (Some [''Python'']) 2)"
    unfolding spans by simp
  from splitBulletWithBolds_emphasis_invariant
    [of "''Built Python ETL jobs for finance reporting''" "Some [''Python'']" 2] bold len
  show ?thesis by blast
qed

section \<open>The soft-lead exemption\<close>

lemma trim_keeps_prefix:
  assumes sw: "startsWith s p" and ne: "p \<noteq> []"
    and h: "\<not> isWhiteSpace (hd p)" and l: "\<not> isWhiteSpace (last p)"
  shows "startsWith (trim s) p"
proof -
  from sw have s: "s = p @ drop (length p) s"
    unfolding startsWith_def by (metis append_take_drop_id)
  define r where "r = drop (length p) s"
  from ne h have d1: "dropWhile isWhiteSpace (p @ r) = p @ r"
    by (cases p) auto
  from ne l have d2: "dropWhile isWhiteSpace (rev p) = rev p"
    by (cases "rev p") (auto simp: last_rev hd_rev dest: arg_cong [where f = hd])
  have "\<exists>x. dropWhile isWhiteSpace (rev r @ rev p) = x @ rev p"
    by (simp add: dropWhile_append d2) 
  then obtain x where "dropWhile isWhiteSpace (rev r @ rev p) = x @ rev p" ..
  then have "trim (p @ r) = p @ rev x"
    by (simp add: trim_def d1)
  with s show ?thesis
    by (simp add: startsWith_def r_def [symmetric])
qed

lemma skip_prefix_shape:
  "prefix \<in> set SKIP_LEADERSHIP_STARTS \<Longrightarrow>
   prefix \<noteq> [] \<and> \<not> isWhiteSpace (hd prefix) \<and> \<not> isWhiteSpace (last prefix)"
  by (auto simp: SKIP_LEADERSHIP_STARTS_def isWhiteSpace_def)

text \<open>
  Claim C2. A bullet text that begins with one of the phrases of
  \<open>SKIP_LEADERSHIP_STARTS\<close> comes back, whatever the matched keywords, as exactly one
  span, which is not emphasized and whose text is the whole bullet text.
\<close>

theorem splitBulletWithBolds_soft_lead_exemption:
  assumes "prefix \<in> set SKIP_LEADERSHIP_STARTS" and "startsWith bulletText prefix"
  shows "splitBulletWithBolds (Some bulletText) matchedKeywords maxBolds = [textRun bulletText FONT_SIZE_BODY] \<and>
         run_text (textRun bulletText FONT_SIZE_BODY) = bulletText \<and>
         \<not> emphasized (textRun bulletText FONT_SIZE_BODY)"
proof -
  from skip_prefix_shape [OF assms(1)] assms(2)
  have "startsWith (trim bulletText) prefix"
    by (intro trim_keeps_prefix) simp_all
  with assms(1) have "\<exists>prefix \<in> set SKIP_LEADERSHIP_STARTS. startsWith (trim bulletText) prefix"
    by blast
  then show ?thesis
    by (simp add: splitBulletWithBolds_def)
qed

theorem splitBulletWithBolds_soft_lead_exemption_witness:
  "splitBulletWithBolds (Some ''Collaborated with the data team to...'') (Some [''Python'']) 2 =
     [textRun ''Collaborated with the data team to...'' FONT_SIZE_BODY] \<and>
   run_text (textRun ''Collaborated with the data team to...'' FONT_SIZE_BODY) =
     ''Collaborated with the data team to...'' \<and>
   \<not> emphasized (textRun ''Collaborated with the data team to...'' FONT_SIZE_BODY)"
proof -
  have listed: "''Collaborated'' \<in> set SKIP_LEADERSHIP_STARTS"
    by (simp add: SKIP_LEADERSHIP_STARTS_def)
  have begins: "startsWith ''Collaborated with the data team to...'' ''Collaborated''"
    by (simp add: startsWith_def)
  from splitBulletWithBolds_soft_lead_exemption [OF listed begins] show ?thesis .
qed

section \<open>Determinism and the empty bullet\<close>

lemma call_frame:
  assumes "moduleLoaded st"
  shows "moduleLoaded (snd (splitBulletWithBolds_st st text kws mb)) \<and>
         moduleTables (snd (splitBulletWithBolds_st st text kws mb)) = moduleTables st"
  using assms
  by (auto simp: splitBulletWithBolds_st_def moduleLoaded_def moduleTables_def arrayFilter_def
      arraySort_def arrayAt_def Let_def split: option.splits)

lemma call_result:
  assumes "moduleLoaded st" and "moduleLoaded st'" and "moduleTables st = moduleTables st'"
  shows "fst (splitBulletWithBolds_st st text kws mb) = fst (splitBulletWithBolds_st st' text kws mb)"
proof -
  have sorted: "arrayAt (snd (arraySort (snd (arrayFilter s PRIORITY_BOLD_ref keep))
        (fst (arrayFilter s PRIORITY_BOLD_ref keep)) key))
      (fst (arraySort (snd (arrayFilter s PRIORITY_BOLD_ref keep))
        (fst (arrayFilter s PRIORITY_BOLD_ref keep)) key)) =
      sort_key key (filter keep (arrayAt s PRIORITY_BOLD_ref))" for s keep key
    by (simp add: arrayFilter_def arraySort_def arrayAt_def)
  from assms(3) have t: "arrayAt st PRIORITY_BOLD_ref = arrayAt st' PRIORITY_BOLD_ref"
    "arrayAt st NEVER_BOLD_ref = arrayAt st' NEVER_BOLD_ref"
    "arrayAt st SKIP_LEADERSHIP_STARTS_ref = arrayAt st' SKIP_LEADERSHIP_STARTS_ref"
    by (simp_all add: moduleTables_def)
  show ?thesis
    by (simp add: splitBulletWithBolds_st_def case_prod_beta Let_def sorted t split: option.splits)
qed

lemma afterCalls_frame:
  "moduleLoaded st \<Longrightarrow>
   moduleLoaded (afterCalls st calls) \<and> moduleTables (afterCalls st calls) = moduleTables st"
proof (induction calls arbitrary: st)
  case Nil
  then show ?case by simp
next
  case (Cons c calls)
  obtain t kws mb where c: "c = (t, kws, mb)" by (cases c) auto
  from call_frame [OF Cons.prems, of t kws mb] Cons.IH [of "snd (splitBulletWithBolds_st st t kws mb)"]
  show ?case by (simp add: c)
qed

lemma moduleLoaded_moduleStore: "moduleLoaded moduleStore"
  by (simp add: moduleLoaded_def moduleStore_def PRIORITY_BOLD_ref_def NEVER_BOLD_ref_def
      SKIP_LEADERSHIP_STARTS_ref_def)

lemma moduleTables_moduleStore:
  "moduleTables moduleStore = (PRIORITY_BOLD, NEVER_BOLD, SKIP_LEADERSHIP_STARTS)"
  by (simp add: moduleTables_def moduleStore_def arrayAt_def PRIORITY_BOLD_ref_def NEVER_BOLD_ref_def
      SKIP_LEADERSHIP_STARTS_ref_def)

lemma call_pure:
  assumes "moduleTables st = (PRIORITY_BOLD, NEVER_BOLD, SKIP_LEADERSHIP_STARTS)"
  shows "fst (splitBulletWithBolds_st st text kws mb) = splitBulletWithBolds text kws mb"
proof -
  have sorted: "arrayAt (snd (arraySort (snd (arrayFilter s PRIORITY_BOLD_ref keep))
        (fst (arrayFilter s PRIORITY_BOLD_ref keep)) key))
      (fst (arraySort (snd (arrayFilter s PRIORITY_BOLD_ref keep))
        (fst (arrayFilter s PRIORITY_BOLD_ref keep)) key)) =
      sort_key key (filter keep (arrayAt s PRIORITY_BOLD_ref))" for s keep key
    by (simp add: arrayFilter_def arraySort_def arrayAt_def)
  from assms have t: "arrayAt st PRIORITY_BOLD_ref = PRIORITY_BOLD"
    "arrayAt st NEVER_BOLD_ref = NEVER_BOLD"
    "arrayAt st SKIP_LEADERSHIP_STARTS_ref = SKIP_LEADERSHIP_STARTS"
    by (simp_all add: moduleTables_def)
  show ?thesis
    by (simp add: splitBulletWithBolds_st_def splitBulletWithBolds_def sortedTerms_def
        termsToCheck_def case_prod_beta Let_def sorted t split: option.splits)
qed

text \<open>
  Claim C8. \<open>splitBulletWithBolds\<close> is deterministic. Whatever calls of the function
  came before, a call returns the spans the same call returns at the start: the same
  texts, in the same order, with the same emphasis flags. A call changes the store only
  by the new array its filter creates and then sorts; the three tables of the module,
  which are all a call reads besides its arguments, stay as they are. From the store
  of the loaded module the spans are those of \<open>splitBulletWithBolds\<close> as defined above
  on the tables themselves.
\<close>

theorem splitBulletWithBolds_deterministic:
  "(moduleLoaded st \<longrightarrow>
      fst (splitBulletWithBolds_st (afterCalls st calls) bulletText matchedKeywords maxBolds) =
      fst (splitBulletWithBolds_st st bulletText matchedKeywords maxBolds) \<and>
      moduleTables (afterCalls st calls) = moduleTables st) \<and>
   fst (splitBulletWithBolds_st (afterCalls moduleStore calls) bulletText matchedKeywords maxBolds) =
     splitBulletWithBolds bulletText matchedKeywords maxBolds"
proof (intro conjI impI)
  assume l: "moduleLoaded st"
  from afterCalls_frame [OF l, of calls] l
  show "fst (splitBulletWithBolds_st (afterCalls st calls) bulletText matchedKeywords maxBolds) =
      fst (splitBulletWithBolds_st st bulletText matchedKeywords maxBolds)"
    by (intro call_result) simp_all
  from afterCalls_frame [OF l, of calls]
  show "moduleTables (afterCalls st calls) = moduleTables st" by simp
next
  from afterCalls_frame [OF moduleLoaded_moduleStore, of calls]
  have "moduleTables (afterCalls moduleStore calls) = (PRIORITY_BOLD, NEVER_BOLD, SKIP_LEADERSHIP_STARTS)"
    by (simp add: moduleTables_moduleStore)
  then show "fst (splitBulletWithBolds_st (afterCalls moduleStore calls) bulletText matchedKeywords maxBolds) =
     splitBulletWithBolds bulletText matchedKeywords maxBolds"
    by (rule call_pure)
qed

theorem splitBulletWithBolds_deterministic_witness:
  "fst (splitBulletWithBolds_st
          (afterCalls moduleStore [(Some ''Built SQL reports'', None, 2)])
          (Some ''Built ETL jobs'') (Some [''ETL'']) 2) =
   fst (splitBulletWithBolds_st moduleStore (Some ''Built ETL jobs'') (Some [''ETL'']) 2) \<and>
   fst (splitBulletWithBolds_st
          (afterCalls moduleStore [(Some ''Built SQL reports'', None, 2)])
          (Some ''Built ETL jobs'') (Some [''ETL'']) 2) =
   splitBulletWithBolds (Some ''Built ETL jobs'') (Some [''ETL'']) 2 \<and>
   nextRef (afterCalls moduleStore [(Some ''Built SQL reports'', None, 2)]) = 4 \<and>
   nextRef moduleStore = 3"
proof -
  note d = splitBulletWithBolds_deterministic
    [of moduleStore "[(Some ''Built SQL reports'', None, 2)]" "Some ''Built ETL jobs''"
       "Some [''ETL'']" 2]
  have skip: "\<not> (\<exists>prefix \<in> set (arrayAt moduleStore SKIP_LEADERSHIP_STARTS_ref).
      startsWith (trim ''Built SQL reports'') prefix)"
    by (simp add: arrayAt_def moduleStore_def SKIP_LEADERSHIP_STARTS_ref_def PRIORITY_BOLD_ref_def
        NEVER_BOLD_ref_def SKIP_LEADERSHIP_STARTS_def trim_def isWhiteSpace_def startsWith_def)
  have "nextRef (snd (splitBulletWithBolds_st moduleStore (Some ''Built SQL reports'') None 2)) =
      nextRef moduleStore + 1"
    using skip
    by (simp add: splitBulletWithBolds_st_def arrayFilter_def arraySort_def case_prod_beta Let_def)
  then have n: "nextRef (afterCalls moduleStore [(Some ''Built SQL reports'', None, 2)]) = 4"
    by (simp add: moduleStore_def)
  have three: "nextRef moduleStore = 3" by (simp add: moduleStore_def)
  from d [THEN conjunct1] moduleLoaded_moduleStore have both:
    "fst (splitBulletWithBolds_st
          (afterCalls moduleStore [(Some ''Built SQL reports'', None, 2)])
          (Some ''Built ETL jobs'') (Some [''ETL'']) 2) =
     fst (splitBulletWithBolds_st moduleStore (Some ''Built ETL jobs'') (Some [''ETL'']) 2) \<and>
     moduleTables (afterCalls moduleStore [(Some ''Built SQL reports'', None, 2)]) =
     moduleTables moduleStore"
    by (rule mp)
  note first = both [THEN conjunct1]
  from first d [THEN conjunct2] n three show ?thesis by (intro conjI)
qed

text \<open>
  Claim C9. For a bullet text that is \<open>null\<close> or \<open>undefined\<close>, and for the empty string,
  \<open>splitBulletWithBolds\<close> returns exactly one span, whose text is the empty string and
  which is not emphasized.
\<close>

theorem splitBulletWithBolds_empty:
  "splitBulletWithBolds None matchedKeywords maxBolds = [textRun [] FONT_SIZE_BODY] \<and>
   splitBulletWithBolds (Some []) matchedKeywords maxBolds = [textRun [] FONT_SIZE_BODY] \<and>
   run_text (textRun [] FONT_SIZE_BODY) = [] \<and>
   \<not> emphasized (textRun [] FONT_SIZE_BODY)"
  by (simp add: splitBulletWithBolds_def)

theorem splitBulletWithBolds_empty_witness:
  "splitBulletWithBolds None (Some [''Python'']) 2 = [textRun [] FONT_SIZE_BODY] \<and>
   splitBulletWithBolds (Some []) (Some [''Python'']) 2 = [textRun [] FONT_SIZE_BODY] \<and>
   run_text (textRun [] FONT_SIZE_BODY) = [] \<and>
   \<not> emphasized (textRun [] FONT_SIZE_BODY)"
  by (rule splitBulletWithBolds_empty)

section \<open>The project cap\<close>

lemma foldl_push: "foldl (\<lambda>children x. children @ f x) init xs = init @ concat (map f xs)"
  by (induction xs arbitrary: init) simp_all

lemma renderedProjectNames_append:
  "renderedProjectNames (ps @ qs) = renderedProjectNames ps @ renderedProjectNames qs"
  by (simp add: renderedProjectNames_def)

lemma renderedProjectNames_bullets: "renderedProjectNames (bulletParagraphs bullets) = []"
proof -
  have "renderedProjectNames (bulletParagraph b) = []" for b
    by (simp add: renderedProjectNames_def bulletParagraph_def Let_def newParagraph_def)
  then have "renderedProjectNames (concat (map bulletParagraph bs)) = []" for bs
    by (induction bs) (simp_all add: renderedProjectNames_append, simp add: renderedProjectNames_def)
  then show ?thesis by (simp add: bulletParagraphs_def)
qed

lemma renderedProjectNames_project:
  "renderedProjectNames (projectParagraphs proj) = [proj_name proj]"
proof -
  have "renderedProjectNames (projectParagraphs proj) =
        [proj_name proj] @ renderedProjectNames (bulletParagraphs (proj_bullets proj))"
    by (simp add: projectParagraphs_def Let_def renderedProjectNames_def newParagraph_def
        bodyRun_def textRun_def split: option.splits)
  then show ?thesis by (simp add: renderedProjectNames_bullets)
qed

lemma renderedProjectNames_projects:
  "renderedProjectNames (concat (map projectParagraphs projects)) = map proj_name projects"
  by (induction projects) (simp_all add: renderedProjectNames_append renderedProjectNames_project, simp add: renderedProjectNames_def)

lemma renderedProjectNames_heading: "renderedProjectNames [sectionHeading title] = []"
  by (simp add: renderedProjectNames_def sectionHeading_def newParagraph_def)

lemma buildProjects_cv:
  "buildProjects projects True =
     (if projects = [] then [] else sectionHeading ''Projects'' # concat (map projectParagraphs projects))"
  by (simp add: buildProjects_def foldl_push)

lemma buildProjects_resume:
  "buildProjects projects False =
     (if projects = [] then []
      else sectionHeading ''Projects'' # concat (map projectParagraphs (take 3 projects)))"
  by (simp add: buildProjects_def foldl_push slice_def)

text \<open>
  Claim C3. In resume mode (\<open>isCv\<close> false) \<open>buildProjects\<close> renders the first three
  projects and no other: its output is the output of CV mode on the first three
  projects, and the projects it renders are the first three, in their order. In CV
  mode (\<open>isCv\<close> true) it renders every project, in the order given.
\<close>

theorem buildProjects_cap:
  "buildProjects projects False = buildProjects (take 3 projects) True \<and>
   renderedProjectNames (buildProjects projects False) = map proj_name (take 3 projects) \<and>
   buildProjects projects True =
     (if projects = [] then []
      else sectionHeading ''Projects'' # concat (map projectParagraphs projects)) \<and>
   renderedProjectNames (buildProjects projects True) = map proj_name projects"
proof (intro conjI)
  show "buildProjects projects False = buildProjects (take 3 projects) True"
    by (cases projects) (simp_all add: buildProjects_cv buildProjects_resume)
  have names: "renderedProjectNames (sectionHeading ''Projects'' # concat (map projectParagraphs ps)) =
      map proj_name ps" for ps
    using renderedProjectNames_append [of "[sectionHeading ''Projects'']" "concat (map projectParagraphs ps)"]
    by (simp add: renderedProjectNames_heading renderedProjectNames_projects)
  show "renderedProjectNames (buildProjects projects False) = map proj_name (take 3 projects)"
    by (cases "projects = []") (simp_all add: buildProjects_resume names, simp add: renderedProjectNames_def)
  show "buildProjects projects True =
     (if projects = [] then []
      else sectionHeading ''Projects'' # concat (map projectParagraphs projects))"
    by (rule buildProjects_cv)
  show "renderedProjectNames (buildProjects projects True) = map proj_name projects"
    by (cases "projects = []") (simp_all add: buildProjects_cv names, simp add: renderedProjectNames_def)
qed

theorem buildProjects_cap_witness:
  "renderedProjectNames
     (buildProjects
        [\<lparr>proj_name = ''P1'', proj_github_url = None, proj_bullets = Some [BulletString ''Built a Flask service'']\<rparr>,
         \<lparr>proj_name = ''P2'', proj_github_url = Some ''https://github.com/u/p2'', proj_bullets = None\<rparr>,
         \<lparr>proj_name = ''P3'', proj_github_url = None, proj_bullets = None\<rparr>,
         \<lparr>proj_name = ''P4'', proj_github_url = None, proj_bullets = None\<rparr>,
         \<lparr>proj_name = ''P5'', proj_github_url = None, proj_bullets = None\<rparr>] False) =
     [''P1'', ''P2'', ''P3''] \<and>
   renderedProjectNames
     (buildProjects
        [\<lparr>proj_name = ''P1'', proj_github_url = None, proj_bullets = Some [BulletString ''Built a Flask service'']\<rparr>,
         \<lparr>proj_name = ''P2'', proj_github_url = Some ''https://github.com/u/p2'', proj_bullets = None\<rparr>,
         \<lparr>proj_name = ''P3'', proj_github_url = None, proj_bullets = None\<rparr>,
         \<lparr>proj_name = ''P4'', proj_github_url = None, proj_bullets = None\<rparr>,
         \<lparr>proj_name = ''P5'', proj_github_url = None, proj_bullets = None\<rparr>] True) =
     [''P1'', ''P2'', ''P3'', ''P4'', ''P5'']"
proof -
  note cap = buildProjects_cap
    [of "[\<lparr>proj_name = ''P1'', proj_github_url = None, proj_bullets = Some [BulletString ''Built a Flask service'']\<rparr>,
         \<lparr>proj_name = ''P2'', proj_github_url = Some ''https://github.com/u/p2'', proj_bullets = None\<rparr>,
         \<lparr>proj_name = ''P3'', proj_github_url = None, proj_bullets = None\<rparr>,
         \<lparr>proj_name = ''P4'', proj_github_url = None, proj_bullets = None\<rparr>,
         \<lparr>proj_name = ''P5'', proj_github_url = None, proj_bullets = None\<rparr>]"]
  from cap [THEN conjunct2, THEN conjunct1] cap [THEN conjunct2, THEN conjunct2, THEN conjunct2]
  show ?thesis by simp
qed

section \<open>Date formatting\<close>

lemma split_not_Nil [simp]: "split sep s \<noteq> []"
  by (induction s) (auto split: list.splits)

lemma split_without_sep: "sep \<notin> set s \<Longrightarrow> split sep s = [s]"
  by (induction s) auto

lemma split_at_first_sep: "sep \<notin> set y \<Longrightarrow> split sep (y @ sep # r) = y # split sep r"
  by (induction y) auto

lemma split_pieces_without_sep: "p \<in> set (split sep s) \<Longrightarrow> sep \<notin> set p"
  by (induction s arbitrary: p) (auto split: if_splits list.splits)

lemma join_split: "join [sep] (split sep s) = s"
proof (induction s)
  case Nil
  show ?case by simp
next
  case (Cons c cs)
  show ?case
  proof (cases "c = sep")
    case True
    with Cons show ?thesis by (cases "split sep cs") simp_all
  next
    case False
    obtain p ps where sp: "split sep cs = p # ps" by (cases "split sep cs") simp_all
    with Cons have "join [sep] (p # ps) = cs" by simp
    then have "join [sep] ((c # p) # ps) = c # cs" by (cases ps) simp_all
    with False sp show ?thesis by simp
  qed
qed

lemma digit_not_space: "isDigit c \<Longrightarrow> \<not> isWhiteSpace c"
  by (auto simp: isDigit_def isWhiteSpace_def)

lemma digit_not_sign: "isDigit c \<Longrightarrow> c \<noteq> CHR ''-'' \<and> c \<noteq> CHR ''+''"
  by (auto simp: isDigit_def)

lemma parseInt_digits:
  assumes "list_all isDigit m" and "m \<noteq> []"
  shows "parseInt m = Some (int (digitsValue m))"
proof -
  from assms obtain c r where m: "m = c # r" by (cases m) auto
  with assms have c: "isDigit c" by simp
  from assms have tw: "takeWhile isDigit m = m"
    by (simp add: takeWhile_eq_all_conv list_all_iff)
  from c have dw: "dropWhile isWhiteSpace m = m" by (simp add: m digit_not_space)
  from digit_not_sign [OF c] have "parseInt m = (if takeWhile isDigit m = [] then None
      else Some (1 * int (digitsValue (takeWhile isDigit m))))"
    unfolding parseInt_def dw by (simp add: m Let_def)
  from this [unfolded tw] assms(2) show ?thesis by simp
qed

lemma formatDate_month_year:
  assumes y: "CHR ''-'' \<notin> set year" and m: "CHR ''-'' \<notin> set month"
    and p: "parseInt month = Some n" and n: "1 \<le> n" "n \<le> 12"
    and r: "rest = [] \<or> hd rest = CHR ''-''"
  shows "formatDate (Some (year @ ''-'' @ month @ rest)) = months ! nat (n - 1) @ '' '' @ year"
proof -
  have "\<exists>more. split CHR ''-'' (month @ rest) = month # more"
  proof (cases rest)
    case Nil
    with m show ?thesis by (simp add: split_without_sep)
  next
    case (Cons c cs)
    with r have "rest = CHR ''-'' # cs" by simp
    with m show ?thesis by (simp add: split_at_first_sep)
  qed
  then obtain more where "split CHR ''-'' (month @ rest) = month # more" ..
  with y have "split CHR ''-'' (year @ ''-'' @ month @ rest) = year # month # more"
    by (simp add: split_at_first_sep)
  with p n show ?thesis by (simp add: formatDate_def Let_def)
qed

lemma formatDate_unreadable:
  assumes "s \<noteq> []" and "\<not> readableMonth s"
  shows "formatDate (Some s) = s"
  using assms
  by (auto simp: formatDate_def readableMonth_def Let_def split: list.splits option.splits)

lemma readableMonth_iff:
  "readableMonth s \<longleftrightarrow>
   (\<exists>year month rest n. s = year @ ''-'' @ month @ rest \<and>
      CHR ''-'' \<notin> set year \<and> CHR ''-'' \<notin> set month \<and> (rest = [] \<or> hd rest = CHR ''-'') \<and>
      parseInt month = Some n \<and> 1 \<le> n \<and> n \<le> 12)"
proof
  assume "readableMonth s"
  then obtain year month more n where sp: "split CHR ''-'' s = year # month # more"
    and p: "parseInt month = Some n" "1 \<le> n" "n \<le> 12"
    by (auto simp: readableMonth_def split: list.splits option.splits)
  define rest where "rest = (if more = [] then [] else ''-'' @ join ''-'' more)"
  from join_split [of "CHR ''-''" s] sp have "s = year @ ''-'' @ month @ rest"
    by (cases more) (simp_all add: rest_def)
  moreover from split_pieces_without_sep [of year "CHR ''-''" s] sp have "CHR ''-'' \<notin> set year" by simp
  moreover from split_pieces_without_sep [of month "CHR ''-''" s] sp have "CHR ''-'' \<notin> set month" by simp
  moreover have "rest = [] \<or> hd rest = CHR ''-''" by (simp add: rest_def)
  ultimately show "\<exists>year month rest n. s = year @ ''-'' @ month @ rest \<and>
      CHR ''-'' \<notin> set year \<and> CHR ''-'' \<notin> set month \<and> (rest = [] \<or> hd rest = CHR ''-'') \<and>
      parseInt month = Some n \<and> 1 \<le> n \<and> n \<le> 12"
    using p by blast
next
  assume "\<exists>year month rest n. s = year @ ''-'' @ month @ rest \<and>
      CHR ''-'' \<notin> set year \<and> CHR ''-'' \<notin> set month \<and> (rest = [] \<or> hd rest = CHR ''-'') \<and>
      parseInt month = Some n \<and> 1 \<le> n \<and> n \<le> 12"
  then obtain year month rest n where s: "s = year @ ''-'' @ month @ rest"
    and y: "CHR ''-'' \<notin> set year" and m: "CHR ''-'' \<notin> set month"
    and r: "rest = [] \<or> hd rest = CHR ''-''"
    and p: "parseInt month = Some n" "1 \<le> n" "n \<le> 12"
    by blast
  have "\<exists>more. split CHR ''-'' (month @ rest) = month # more"
  proof (cases rest)
    case Nil
    with m show ?thesis by (simp add: split_without_sep)
  next
    case (Cons c cs)
    with r have "rest = CHR ''-'' # cs" by simp
    with m show ?thesis by (simp add: split_at_first_sep)
  qed
  then obtain more where "split CHR ''-'' (month @ rest) = month # more" ..
  with y s have "split CHR ''-'' s = year # month # more"
    by (simp add: split_at_first_sep)
  with p show "readableMonth s" by (simp add: readableMonth_def)
qed

lemma formatDate_iso:
  assumes "isoYearMonth s"
  shows "formatDate (Some s) = months ! (digitsValue (drop 5 s) - 1) @ '' '' @ take 4 s"
proof -
  from assms have len: "length s = 7" and yd: "list_all isDigit (take 4 s)"
    and dash: "s ! 4 = CHR ''-''" and md: "list_all isDigit (drop 5 s)"
    and lo: "1 \<le> digitsValue (drop 5 s)" and hi: "digitsValue (drop 5 s) \<le> 12"
    by (simp_all add: isoYearMonth_def)
  from len have "s = take 4 s @ drop 4 s" by simp
  moreover have "drop 4 s = CHR ''-'' # drop 5 s"
  proof -
    from len have "s ! 4 # drop (Suc 4) s = drop 4 s"
      by (intro Cons_nth_drop_Suc) simp
    moreover have "Suc 4 = 5" by simp
    ultimately show ?thesis using dash by simp
  qed
  ultimately have s: "s = take 4 s @ ''-'' @ drop 5 s @ []" by simp
  from yd have y: "CHR ''-'' \<notin> set (take 4 s)"
    by (auto simp: list_all_iff dest: digit_not_sign)
  from md have m: "CHR ''-'' \<notin> set (drop 5 s)"
    by (auto simp: list_all_iff dest: digit_not_sign)
  from len have "drop 5 s \<noteq> []" by simp
  with md have p: "parseInt (drop 5 s) = Some (int (digitsValue (drop 5 s)))"
    by (rule parseInt_digits)
  from lo hi have "1 \<le> int (digitsValue (drop 5 s))" "int (digitsValue (drop 5 s)) \<le> 12" by simp_all
  from formatDate_month_year [OF y m p this, of "[]"] s
  have "formatDate (Some s) = months ! nat (int (digitsValue (drop 5 s)) - 1) @ '' '' @ take 4 s"
    by simp
  moreover have "nat (int (digitsValue (drop 5 s)) - 1) = digitsValue (drop 5 s) - 1" by simp
  ultimately show ?thesis by simp
qed

lemma buildExperience_paragraphs:
  "buildExperience jobs =
     sectionHeading ''Professional Experience'' # concat (map jobParagraphs jobs)"
  by (simp add: buildExperience_def foldl_push)

lemma formatDate_2022_03: "formatDate (Some ''2022-03'') = ''Mar 2022''"
  by code_simp

text \<open>
  Claim C4, as amended. \<open>formatDate\<close> maps an ISO \<open>YYYY-MM\<close> string to the month's
  abbreviation, a space and the year, and a missing date to \<open>Present\<close>. It also maps
  the empty string to \<open>Present\<close>. It returns unchanged every string that is not empty
  and is not made of a first component, a dash, a second component off which
  \<open>parseInt\<close> reads an integer from 1 to 12, and then nothing or a dash and anything.
  For every experience entry that starts in \<open>2022-03\<close> and has no end date,
  \<open>buildExperience\<close> renders a title line whose last run is the date range
  \<open>Mar 2022\<close>, en dash, \<open>Present\<close>, after a bar.
\<close>

theorem formatDate_contract:
  "(isoYearMonth ym \<longrightarrow>
      formatDate (Some ym) = months ! (digitsValue (drop 5 ym) - 1) @ '' '' @ take 4 ym) \<and>
   formatDate None = ''Present'' \<and>
   formatDate (Some []) = ''Present'' \<and>
   (other \<noteq> [] \<and>
    \<not> (\<exists>first second rest n. other = first @ ''-'' @ second @ rest \<and>
          CHR ''-'' \<notin> set first \<and> CHR ''-'' \<notin> set second \<and>
          (rest = [] \<or> hd rest = CHR ''-'') \<and>
          parseInt second = Some n \<and> 1 \<le> n \<and> n \<le> 12) \<longrightarrow>
      formatDate (Some other) = other) \<and>
   (job \<in> set jobs \<and> job_start_date job = Some ''2022-03'' \<and> job_end_date job = None \<longrightarrow>
      (\<exists>p \<in> set (buildExperience jobs).
         par_children p =
           [Run ((bodyRun (job_company job @ '', ''))\<lparr>run_bold := Some True\<rparr>),
            Run ((bodyRun (job_title job))\<lparr>run_bold := Some True\<rparr>),
            Run (bodyRun ('' | Mar 2022 '' @ EN_DASH @ '' Present''))]))"
proof (intro conjI impI)
  assume "isoYearMonth ym"
  then show "formatDate (Some ym) = months ! (digitsValue (drop 5 ym) - 1) @ '' '' @ take 4 ym"
    by (rule formatDate_iso)
next
  show "formatDate None = ''Present''" by (simp add: formatDate_def)
  show "formatDate (Some []) = ''Present''" by (simp add: formatDate_def)
next
  assume "other \<noteq> [] \<and>
    \<not> (\<exists>first second rest n. other = first @ ''-'' @ second @ rest \<and>
          CHR ''-'' \<notin> set first \<and> CHR ''-'' \<notin> set second \<and>
          (rest = [] \<or> hd rest = CHR ''-'') \<and>
          parseInt second = Some n \<and> 1 \<le> n \<and> n \<le> 12)"
  then have "other \<noteq> []" and "\<not> readableMonth other"
    unfolding readableMonth_iff by simp_all
  then show "formatDate (Some other) = other" by (rule formatDate_unreadable)
next
  assume j: "job \<in> set jobs \<and> job_start_date job = Some ''2022-03'' \<and> job_end_date job = None"
  then have range: "dateRange job = ''Mar 2022 '' @ EN_DASH @ '' Present''"
    by (simp add: dateRange_def formatDate_2022_03) (simp add: formatDate_def)
  let ?p = "(newParagraph
         [Run ((bodyRun (job_company job @ '', ''))\<lparr>run_bold := Some True\<rparr>),
          Run ((bodyRun (job_title job))\<lparr>run_bold := Some True\<rparr>),
          Run (bodyRun ('' | '' @ dateRange job))])
        \<lparr>par_spacing_before := Some 120, par_spacing_after := Some 40\<rparr>"
  have "?p \<in> set (jobParagraphs job)" by (simp add: jobParagraphs_def)
  with j have "?p \<in> set (buildExperience jobs)"
    by (auto simp: buildExperience_paragraphs)
  moreover have "par_children ?p =
           [Run ((bodyRun (job_company job @ '', ''))\<lparr>run_bold := Some True\<rparr>),
            Run ((bodyRun (job_title job))\<lparr>run_bold := Some True\<rparr>),
            Run (bodyRun ('' | Mar 2022 '' @ EN_DASH @ '' Present''))]"
    by (simp add: newParagraph_def range)
  ultimately show "\<exists>p \<in> set (buildExperience jobs).
         par_children p =
           [Run ((bodyRun (job_company job @ '', ''))\<lparr>run_bold := Some True\<rparr>),
            Run ((bodyRun (job_title job))\<lparr>run_bold := Some True\<rparr>),
            Run (bodyRun ('' | Mar 2022 '' @ EN_DASH @ '' Present''))]"
    by blast
qed

theorem formatDate_contract_witness:
  "formatDate (Some ''2022-03'') = ''Mar 2022'' \<and>
   formatDate None = ''Present'' \<and>
   formatDate (Some ''next spring'') = ''next spring'' \<and>
   (\<exists>p \<in> set (buildExperience
        [\<lparr>job_company = ''Acme'', job_title = ''Analyst'', job_location = None,
          job_start_date = Some ''2022-03'', job_end_date = None, job_bullets = None\<rparr>]).
      par_children p =
        [Run ((bodyRun ''Acme, '')\<lparr>run_bold := Some True\<rparr>),
         Run ((bodyRun ''Analyst'')\<lparr>run_bold := Some True\<rparr>),
         Run (bodyRun ('' | Mar 2022 '' @ EN_DASH @ '' Present''))])"
proof -
  have iso: "isoYearMonth ''2022-03''" by code_simp
  have mon: "months ! (digitsValue (drop 5 ''2022-03'') - 1) @ '' '' @ take 4 ''2022-03'' = ''Mar 2022''"
    by code_simp
  have "\<not> readableMonth ''next spring''" by code_simp
  then have un: "''next spring'' \<noteq> [] \<and>
    \<not> (\<exists>first second rest n. ''next spring'' = first @ ''-'' @ second @ rest \<and>
          CHR ''-'' \<notin> set first \<and> CHR ''-'' \<notin> set second \<and>
          (rest = [] \<or> hd rest = CHR ''-'') \<and>
          parseInt second = Some n \<and> 1 \<le> n \<and> n \<le> 12)"
    unfolding readableMonth_iff by simp
  note c = formatDate_contract [of "''2022-03''" "''next spring''"
    "\<lparr>job_company = ''Acme'', job_title = ''Analyst'', job_location = None,
     job_start_date = Some ''2022-03'', job_end_date = None, job_bullets = None\<rparr>"
    "[\<lparr>job_company = ''Acme'', job_title = ''Analyst'', job_location = None,
     job_start_date = Some ''2022-03'', job_end_date = None, job_bullets = None\<rparr>]"]
  from c iso mon have a: "formatDate (Some ''2022-03'') = ''Mar 2022''" by simp
  from c have b: "formatDate None = ''Present''" by blast
  from c [THEN conjunct2, THEN conjunct2, THEN conjunct2, THEN conjunct1] un
  have d: "formatDate (Some ''next spring'') = ''next spring''" by (rule mp)
  from c [THEN conjunct2, THEN conjunct2, THEN conjunct2, THEN conjunct2]
  have e: "\<exists>p \<in> set (buildExperience
        [\<lparr>job_company = ''Acme'', job_title = ''Analyst'', job_location = None,
          job_start_date = Some ''2022-03'', job_end_date = None, job_bullets = None\<rparr>]).
      par_children p =
        [Run ((bodyRun ''Acme, '')\<lparr>run_bold := Some True\<rparr>),
         Run ((bodyRun ''Analyst'')\<lparr>run_bold := Some True\<rparr>),
         Run (bodyRun ('' | Mar 2022 '' @ EN_DASH @ '' Present''))]"
    by simp
  from a b d e show ?thesis by (intro conjI)
qed

text \<open>
  The claim as stated has every string that cannot be parsed returned unchanged, and
  the one format it names is ISO \<open>YYYY-MM\<close>. Two strings that are not of that format
  are not returned unchanged. The empty string is taken for a missing date by the first
  test of \<open>formatDate\<close>, \<open>!dateStr\<close>. The string \<open>3-5 years\<close> is read as a date: the
  function asks only for two components or more and for a second component that
  \<open>parseInt\<close> reads as a month.
\<close>

theorem formatDate_unparseable_counterexample:
  "\<not> isoYearMonth [] \<and> formatDate (Some []) = ''Present'' \<and> formatDate (Some []) \<noteq> [] \<and>
   \<not> isoYearMonth ''3-5 years'' \<and> formatDate (Some ''3-5 years'') = ''May 3'' \<and>
   formatDate (Some ''3-5 years'') \<noteq> ''3-5 years''"
proof -
  have a: "\<not> isoYearMonth []" by (simp add: isoYearMonth_def)
  have b: "formatDate (Some []) = ''Present''" by (simp add: formatDate_def)
  have c: "\<not> isoYearMonth ''3-5 years''" by (simp add: isoYearMonth_def)
  have d: "formatDate (Some ''3-5 years'') = ''May 3''" by code_simp
  from a b c d show ?thesis by simp
qed

text \<open>
  Claim C10. \<open>formatDate\<close> reads a month off every string made of a first component,
  a dash, a second component from which \<open>parseInt\<close> reads an integer from 1 to 12, and
  then nothing or a dash and anything: the result is the month's abbreviation, a space
  and the first component. Every other string that is not empty is returned unchanged.
\<close>

theorem formatDate_dash_separated:
  "(CHR ''-'' \<notin> set year \<and> CHR ''-'' \<notin> set month \<and> (rest = [] \<or> hd rest = CHR ''-'') \<and>
    parseInt month = Some n \<and> 1 \<le> n \<and> n \<le> 12 \<longrightarrow>
      formatDate (Some (year @ ''-'' @ month @ rest)) = months ! nat (n - 1) @ '' '' @ year) \<and>
   (other \<noteq> [] \<and>
    \<not> (\<exists>year month rest n. other = year @ ''-'' @ month @ rest \<and>
          CHR ''-'' \<notin> set year \<and> CHR ''-'' \<notin> set month \<and> (rest = [] \<or> hd rest = CHR ''-'') \<and>
          parseInt month = Some n \<and> 1 \<le> n \<and> n \<le> 12) \<longrightarrow>
      formatDate (Some other) = other)"
proof (intro conjI impI)
  assume "CHR ''-'' \<notin> set year \<and> CHR ''-'' \<notin> set month \<and> (rest = [] \<or> hd rest = CHR ''-'') \<and>
    parseInt month = Some n \<and> 1 \<le> n \<and> n \<le> 12"
  then show "formatDate (Some (year @ ''-'' @ month @ rest)) = months ! nat (n - 1) @ '' '' @ year"
    by (intro formatDate_month_year) simp_all
next
  assume "other \<noteq> [] \<and>
    \<not> (\<exists>year month rest n. other = year @ ''-'' @ month @ rest \<and>
          CHR ''-'' \<notin> set year \<and> CHR ''-'' \<notin> set month \<and> (rest = [] \<or> hd rest = CHR ''-'') \<and>
          parseInt month = Some n \<and> 1 \<le> n \<and> n \<le> 12)"
  then have "other \<noteq> []" and "\<not> readableMonth other"
    unfolding readableMonth_iff by simp_all
  then show "formatDate (Some other) = other" by (rule formatDate_unreadable)
qed

theorem formatDate_dash_separated_witness:
  "formatDate (Some ''2022-03-15'') = ''Mar 2022'' \<and>
   formatDate (Some ''2022-13'') = ''2022-13''"
proof -
  have parsed: "parseInt ''03'' = Some 3" by code_simp
  have shape: "CHR ''-'' \<notin> set ''2022'' \<and> CHR ''-'' \<notin> set ''03'' \<and>
      (''-15'' = [] \<or> hd ''-15'' = CHR ''-'')"
    by simp
  have mon: "months ! nat (3 - 1) @ '' '' @ ''2022'' = ''Mar 2022''" by code_simp
  have other: "''2022-13'' \<noteq> [] \<and> \<not> readableMonth ''2022-13''" by code_simp
  note d = formatDate_dash_separated [of "''2022''" "''03''" "''-15''" 3 "''2022-13''"]
  from d parsed shape mon have "formatDate (Some ''2022-03-15'') = ''Mar 2022''" by simp
  moreover from d other have "formatDate (Some ''2022-13'') = ''2022-13''"
    unfolding readableMonth_iff by blast
  ultimately show ?thesis by blast
qed

section \<open>Missing optional fields\<close>

lemma pushIf_present: "pushIf v f parts = parts @ map f (presentValues [v])"
  by (simp add: pushIf_def presentValues_def split: option.splits)

lemma contactParts_present:
  "pushIf e id (pushIf p id (pushIf l id [])) = presentValues [l, p, e]"
  by (simp add: pushIf_def presentValues_def split: option.splits)

lemma linkParts_texts:
  "concat (map childTexts (pushLink c (pushLink b (pushLink a [])))) =
     separated '' | '' (presentValues [a, b, c])"
  by (simp add: pushLink_def presentValues_def profileLink_def contactRun_def textRun_def
      split: option.splits)

lemma linkParts_empty:
  "pushLink c (pushLink b (pushLink a [])) = [] \<longleftrightarrow> presentValues [a, b, c] = []"
  by (simp add: pushLink_def presentValues_def split: option.splits)

lemma buildHeader_texts:
  "renderedTexts (buildHeader personal) =
     [orElse (personal_name personal) []] @
     (if presentValues [personal_location personal, personal_phone personal, personal_email personal] = []
      then []
      else [join '' | ''
              (presentValues [personal_location personal, personal_phone personal, personal_email personal])]) @
     separated '' | ''
       (presentValues [personal_linkedin personal, personal_github personal, personal_portfolio personal])"
proof -
  have sep0: "separated '' | '' xs = []" if "xs = []" for xs using that by simp
  show ?thesis
    unfolding buildHeader_def Let_def contactParts_present linkParts_empty
    by (simp add: renderedTexts_def newParagraph_def contactRun_def textRun_def linkParts_texts sep0)
qed

lemma buildHeader_length:
  "length (buildHeader personal) =
     1 +
     (if presentValues [personal_location personal, personal_phone personal, personal_email personal] = []
      then 0 else 1) +
     (if presentValues [personal_linkedin personal, personal_github personal, personal_portfolio personal] = []
      then 0 else 1)"
  unfolding buildHeader_def Let_def contactParts_present linkParts_empty
  by simp

lemma educationParagraphs_texts:
  "renderedTexts (educationParagraphs edu) =
     [edu_degree edu @ concat (map (\<lambda>f. '' in '' @ f) (presentValues [edu_field edu])),
      (let rightPart =
             map (\<lambda>d. formatDate (Some d)) (presentValues [edu_end_date edu]) @
             map (\<lambda>g. ''GPA: '' @ g) (presentValues [edu_gpa edu])
       in if rightPart = [] then [] else '' | '' @ join '' | '' rightPart),
      join '', '' (edu_institution edu # presentValues [edu_location edu])]"
  by (simp add: educationParagraphs_def Let_def pushIf_present renderedTexts_def newParagraph_def
      bodyRun_def textRun_def truthy_def orElse_def presentValues_def split: option.splits)

text \<open>
  Claim C7. The header and an education entry show the values of the optional fields
  that are present and nothing in place of those that are missing. The header is the
  name, then one line with the present ones of location, phone and email if there is
  any, then one line with the present ones of linkedin, github and portfolio if there
  is any; a missing field adds no text, no separator and no paragraph. An education
  entry is the degree, followed by the field only if present; the end date and the
  grade point average if present, and no text otherwise; and the institution, followed
  by the location only if present.
\<close>

theorem missing_optional_fields_omitted:
  "renderedTexts (buildHeader personal) =
     [orElse (personal_name personal) []] @
     (if presentValues [personal_location personal, personal_phone personal, personal_email personal] = []
      then []
      else [join '' | ''
              (presentValues [personal_location personal, personal_phone personal, personal_email personal])]) @
     separated '' | ''
       (presentValues [personal_linkedin personal, personal_github personal, personal_portfolio personal]) \<and>
   length (buildHeader personal) =
     1 +
     (if presentValues [personal_location personal, personal_phone personal, personal_email personal] = []
      then 0 else 1) +
     (if presentValues [personal_linkedin personal, personal_github personal, personal_portfolio personal] = []
      then 0 else 1) \<and>
   buildEducation education =
     (if education = [] then []
      else sectionHeading ''Education'' # concat (map educationParagraphs education)) \<and>
   renderedTexts (educationParagraphs edu) =
     [edu_degree edu @ concat (map (\<lambda>f. '' in '' @ f) (presentValues [edu_field edu])),
      (let rightPart =
             map (\<lambda>d. formatDate (Some d)) (presentValues [edu_end_date edu]) @
             map (\<lambda>g. ''GPA: '' @ g) (presentValues [edu_gpa edu])
       in if rightPart = [] then [] else '' | '' @ join '' | '' rightPart),
      join '', '' (edu_institution edu # presentValues [edu_location edu])]"
proof (intro conjI)
  show "buildEducation education =
     (if education = [] then []
      else sectionHeading ''Education'' # concat (map educationParagraphs education))"
    by (simp add: buildEducation_def foldl_push)
qed (rule buildHeader_texts buildHeader_length educationParagraphs_texts)+

theorem missing_optional_fields_omitted_witness:
  "renderedTexts
     (buildHeader \<lparr>personal_name = Some ''Ada Byron'', personal_email = Some ''ada@example.org'',
        personal_phone = None, personal_linkedin = None, personal_github = Some ''github.com/ada'',
        personal_portfolio = None, personal_location = None\<rparr>) =
     [''Ada Byron'', ''ada@example.org'', ''github.com/ada''] \<and>
   length
     (buildHeader \<lparr>personal_name = Some ''Ada Byron'', personal_email = Some ''ada@example.org'',
        personal_phone = None, personal_linkedin = None, personal_github = Some ''github.com/ada'',
        personal_portfolio = None, personal_location = None\<rparr>) = 3 \<and>
   renderedTexts
     (educationParagraphs \<lparr>edu_degree = ''MSc'', edu_field = None, edu_institution = ''Turin'',
        edu_location = None, edu_gpa = None, edu_end_date = None\<rparr>) =
     [''MSc'', [], ''Turin'']"
proof -
  note m = missing_optional_fields_omitted
    [of "\<lparr>personal_name = Some ''Ada Byron'', personal_email = Some ''ada@example.org'',
        personal_phone = None, personal_linkedin = None, personal_github = Some ''github.com/ada'',
        personal_portfolio = None, personal_location = None\<rparr>" "[]"
        "\<lparr>edu_degree = ''MSc'', edu_field = None, edu_institution = ''Turin'',
        edu_location = None, edu_gpa = None, edu_end_date = None\<rparr>"]
  from m [THEN conjunct1] m [THEN conjunct2, THEN conjunct1]
    m [THEN conjunct2, THEN conjunct2, THEN conjunct2]
  show ?thesis
    by (simp add: presentValues_def orElse_def)
qed

section \<open>The order of the skill categories\<close>

lemma firstSeenGroups_alt:
  "firstSeenGroups skills = map (\<lambda>c. (c, namesIn c skills)) (firstOccurrences (map categoryOf skills))"
  by (simp add: firstSeenGroups_def namesIn_def)

lemma set_firstOccurrences [simp]: "set (firstOccurrences cs) = set cs"
  by (induction cs rule: firstOccurrences.induct) auto

lemma firstSeenGroups_Cons:
  "firstSeenGroups (s # ss) =
     (categoryOf s, skill_name s # namesIn (categoryOf s) ss) #
     firstSeenGroups (filter (\<lambda>t. categoryOf t \<noteq> categoryOf s) ss)"
proof -
  let ?c = "categoryOf s"
  let ?rest = "filter (\<lambda>t. categoryOf t \<noteq> ?c) ss"
  have cats: "filter (\<lambda>d. d \<noteq> ?c) (map categoryOf ss) = map categoryOf ?rest"
    by (simp add: filter_map comp_def)
  have "namesIn d (s # ss) = namesIn d ?rest" if "d \<noteq> ?c" for d
    using that by (auto simp: namesIn_def intro!: arg_cong [where f = "map skill_name"] filter_cong)
  then have "map (\<lambda>d. (d, namesIn d (s # ss))) (firstOccurrences (map categoryOf ?rest)) =
        map (\<lambda>d. (d, namesIn d ?rest)) (firstOccurrences (map categoryOf ?rest))"
    by (intro map_cong) auto
  then show ?thesis
    by (simp add: firstSeenGroups_alt cats) (simp add: namesIn_def)
qed

lemma groupSkills_general:
  assumes "\<forall>s \<in> set skills. categoryOf s \<notin> set objectPrototypeKeys"
  shows "groupSkills byCategory skills =
     Inr (map (\<lambda>(k, v). (k, v @ namesIn k skills)) byCategory @
          firstSeenGroups (filter (\<lambda>s. categoryOf s \<notin> fst ` set byCategory) skills))"
  using assms
proof (induction skills arbitrary: byCategory)
  case Nil
  show ?case by (simp add: namesIn_def firstSeenGroups_def case_prod_beta)
next
  case (Cons s ss)
  let ?c = "categoryOf s"
  from Cons.prems have ok: "?c \<notin> set objectPrototypeKeys"
    and rest: "\<forall>t \<in> set ss. categoryOf t \<notin> set objectPrototypeKeys"
    by simp_all
  show ?case
  proof (cases "map_of byCategory ?c")
    case None
    then have new: "?c \<notin> fst ` set byCategory" by (simp add: map_of_eq_None_iff)
    then have new': "(?c, v) \<notin> set byCategory" for v by force
    let ?acc = "byCategory @ [(?c, [skill_name s])]"
    have step: "groupSkills byCategory (s # ss) = groupSkills ?acc ss"
      using ok None by (simp add: categoryOf_def Let_def)
    have keep: "map (\<lambda>(k, v). (k, v @ namesIn k (s # ss))) byCategory =
          map (\<lambda>(k, v). (k, v @ namesIn k ss)) byCategory"
      using new' by (intro map_cong) (auto simp: namesIn_def)
    have filt: "filter (\<lambda>t. categoryOf t \<notin> fst ` set ?acc) ss =
          filter (\<lambda>t. categoryOf t \<noteq> ?c) (filter (\<lambda>t. categoryOf t \<notin> fst ` set byCategory) ss)"
      using new' by (auto intro: filter_cong)
    have names: "namesIn ?c (filter (\<lambda>t. categoryOf t \<notin> fst ` set byCategory) ss) = namesIn ?c ss"
      using new' by (auto simp: namesIn_def intro!: arg_cong [where f = "map skill_name"] filter_cong)
    show ?thesis
      unfolding step Cons.IH [OF rest]
      using new by (simp add: keep filt firstSeenGroups_Cons names conj_commute)
  next
    case (Some names)
    then have old: "?c \<in> fst ` set byCategory"
      by (metis map_of_eq_None_iff option.distinct(1))
    let ?acc = "map (\<lambda>(k, v). if k = ?c then (k, v @ [skill_name s]) else (k, v)) byCategory"
    have step: "groupSkills byCategory (s # ss) = groupSkills ?acc ss"
      using ok Some by (simp add: categoryOf_def Let_def)
    have keys: "fst ` set ?acc = fst ` set byCategory"
      by (force simp: image_iff split: if_splits)
    have upd: "map (\<lambda>(k, v). (k, v @ namesIn k ss)) ?acc =
          map (\<lambda>(k, v). (k, v @ namesIn k (s # ss))) byCategory"
      by (auto simp: namesIn_def)
    show ?thesis
      unfolding step Cons.IH [OF rest] keys upd
      using old by simp
  qed
qed

lemma objectEntries_no_index:
  assumes "\<forall>k \<in> fst ` set props. \<not> isArrayIndex k"
  shows "objectEntries props = props"
proof -
  from assms have "filter (\<lambda>(k, v). isArrayIndex k) props = []"
    by (auto simp: filter_empty_conv)
  moreover from assms have "filter (\<lambda>(k, v). \<not> isArrayIndex k) props = props"
    by (auto simp: filter_id_conv)
  ultimately show ?thesis by (simp add: objectEntries_def)
qed

lemma foldl_push1: "foldl (\<lambda>children x. children @ [f x]) init xs = init @ map f xs"
  by (induction xs arbitrary: init) simp_all

lemma buildSkills_first_seen_order:
  assumes "skills \<noteq> []"
    and "\<forall>s \<in> set skills. categoryOf s \<notin> set objectPrototypeKeys \<and> \<not> isArrayIndex (categoryOf s)"
  shows "buildSkills skills =
     Inr (sectionHeading ''Technical Skills'' # map skillsParagraph (firstSeenGroups skills))"
proof -
  from assms(2) have "groupSkills [] skills = Inr (firstSeenGroups skills)"
    by (simp add: groupSkills_general)
  moreover have "fst ` set (firstSeenGroups skills) = categoryOf ` set skills"
    by (force simp: firstSeenGroups_def image_iff)
  with assms(2) have "objectEntries (firstSeenGroups skills) = firstSeenGroups skills"
    by (intro objectEntries_no_index) auto
  ultimately show ?thesis
    using assms(1) by (simp add: buildSkills_def foldl_push1)
qed

lemma groupSkills_example: "groupSkills []
     [\<lparr>skill_name = ''Python'', skill_category = Some ''Languages''\<rparr>,
      \<lparr>skill_name = ''AWS Solutions Architect'', skill_category = Some ''2024''\<rparr>] =
   Inr [(''Languages'', [''Python'']), (''2024'', [''AWS Solutions Architect''])]"
  by (simp add: orElse_def objectPrototypeKeys_def)

lemma digitsValue_2024: "digitsValue ''2024'' = 2024"
  by (simp add: digitsValue_def digitValue_def)

lemma isArrayIndex_2024: "isArrayIndex ''2024''"
  by (simp add: isArrayIndex_def isDigit_def digitsValue_2024)

lemma isArrayIndex_Languages: "\<not> isArrayIndex ''Languages''"
  by (simp add: isArrayIndex_def isDigit_def)

lemma objectEntries_example: "objectEntries [(''Languages'', [''Python'']), (''2024'', [''AWS Solutions Architect''])] =
  [(''2024'', [''AWS Solutions Architect'']), (''Languages'', [''Python''])]"
  by (simp add: objectEntries_def isArrayIndex_2024 isArrayIndex_Languages)

lemma firstSeenGroups_example: "firstSeenGroups
     [\<lparr>skill_name = ''Python'', skill_category = Some ''Languages''\<rparr>,
      \<lparr>skill_name = ''AWS Solutions Architect'', skill_category = Some ''2024''\<rparr>] =
   [(''Languages'', [''Python'']), (''2024'', [''AWS Solutions Architect''])]"
  by (simp add: firstSeenGroups_def categoryOf_def orElse_def)

lemma buildSkills_example: "buildSkills
     [\<lparr>skill_name = ''Python'', skill_category = Some ''Languages''\<rparr>,
      \<lparr>skill_name = ''AWS Solutions Architect'', skill_category = Some ''2024''\<rparr>] =
   Inr [sectionHeading ''Technical Skills'',
        skillsParagraph (''2024'', [''AWS Solutions Architect'']),
        skillsParagraph (''Languages'', [''Python''])]"
  by (simp add: buildSkills_def groupSkills_example objectEntries_example del: groupSkills.simps)

lemma buildSkills_prototype_key:
  "buildSkills [\<lparr>skill_name = ''Python'', skill_category = Some ''constructor''\<rparr>] =
   Inl (TypeError ''byCategory[cat].push is not a function'')"
  by (simp add: buildSkills_def orElse_def objectPrototypeKeys_def)

text \<open>
  Claim C6 has the categories in first-seen order whatever their strings are. The
  script keeps them as the keys of a plain object and reads them back with
  \<open>Object.entries\<close>, which lists a key that is an array index before every other key.
  With the categories \<open>Languages\<close> and \<open>2024\<close>, first seen in this order, the section
  shows \<open>2024\<close> first. (For categories that are neither array indices nor keys of
  \<open>Object.prototype\<close> the order is the first-seen one: \<open>buildSkills_first_seen_order\<close>.)
\<close>

theorem buildSkills_integer_like_category:
  "buildSkills
     [\<lparr>skill_name = ''Python'', skill_category = Some ''Languages''\<rparr>,
      \<lparr>skill_name = ''AWS Solutions Architect'', skill_category = Some ''2024''\<rparr>] =
   Inr [sectionHeading ''Technical Skills'',
        skillsParagraph (''2024'', [''AWS Solutions Architect'']),
        skillsParagraph (''Languages'', [''Python''])] \<and>
   firstSeenGroups
     [\<lparr>skill_name = ''Python'', skill_category = Some ''Languages''\<rparr>,
      \<lparr>skill_name = ''AWS Solutions Architect'', skill_category = Some ''2024''\<rparr>] =
   [(''Languages'', [''Python'']), (''2024'', [''AWS Solutions Architect''])]"
  by (simp add: buildSkills_example firstSeenGroups_example)

section \<open>Failure of the generation\<close>

lemma packAndWrite_failure:
  assumes "packAndWrite env label doc outputPath w = (Inl err, w')"
  shows "console_log w' = console_log w \<and> stderr w' = stderr w \<and>
         exitCode w' = exitCode w \<and>
         (\<forall>p. p \<noteq> outputPath \<longrightarrow> files w' p = files w p) \<and>
         (toBuffer env doc = Inl err \<or> (\<exists>code. err = FsError code)) \<and>
         (files w' = files w \<or>
          (\<exists>buffer n code. toBuffer env doc = Inr buffer \<and>
             writeOutcome env = WriteFailsAfter n code \<and> err = FsError code \<and>
             files w' = (files w)(outputPath \<mapsto> take n buffer)))"
  using assms
  by (auto simp: packAndWrite_def writeFileSync_def split: sum.splits WriteOutcome.splits)

lemma run_failure:
  assumes "run env docType data outputFile w = (Inl err, w')"
  shows "console_log w' = console_log w \<and> stderr w' = stderr w \<and>
         exitCode w' = exitCode w \<and>
         (\<forall>p. p \<noteq> outputFile \<longrightarrow> files w' p = files w p) \<and>
         ((\<exists>msg. err = TypeError msg) \<or> (\<exists>doc. toBuffer env doc = Inl err) \<or>
          (\<exists>code. err = FsError code)) \<and>
         (files w' = files w \<or>
          (\<exists>doc buffer n code. toBuffer env doc = Inr buffer \<and>
             writeOutcome env = WriteFailsAfter n code \<and> err = FsError code \<and>
             files w' = (files w)(outputFile \<mapsto> take n buffer)))"
proof -
  have skills: "\<exists>msg. e = TypeError msg" if "buildSkills skills = Inl e" for skills e
  proof -
    have "\<exists>msg. e = TypeError msg" if "groupSkills acc sk = Inl e" for acc sk
      using that by (induction sk arbitrary: acc) (auto simp: Let_def split: if_splits)
    with that show ?thesis
      by (auto simp: buildSkills_def split: if_splits sum.splits)
  qed
  consider (early) "w' = w" "\<exists>msg. err = TypeError msg"
    | (late) label doc where "packAndWrite env label doc outputFile w = (Inl err, w')"
    using assms
    by (auto simp: run_def generateResume_def generateCV_def generateCoverLetter_def Let_def
        nullData_def split: if_splits sum.splits option.splits dest: skills)
  then show ?thesis
  proof cases
    case early
    then show ?thesis by simp
  next
    case late
    from packAndWrite_failure [OF late] show ?thesis by blast
  qed
qed

lemma run_null: "run env docType None outputFile w = (Inl nullData, w)"
  by (simp add: run_def generateResume_def generateCV_def generateCoverLetter_def)

lemma example_args:
  "inputFileOf [''in.json'', ''out.docx''] = Some ''in.json''"
  "outputFileOf [''in.json'', ''out.docx''] = Some ''out.docx''"
  "docTypeOf [''in.json'', ''out.docx''] = Some ''resume''"
  by (simp_all add: inputFileOf_def outputFileOf_def docTypeOf_def argAt_def)

lemma resume_sections_empty:
  "buildSkills (orEmpty (data_skills emptyPayload)) = Inr []"
  by (simp add: emptyPayload_def orEmpty_def buildSkills_def)

lemma run_write_fails:
  "run failingWriteEnv (Some ''resume'') (Some emptyPayload) ''out.docx'' (worldWithInput ''{}'') =
   (Inl (FsError ''ENOSPC''),
    (worldWithInput ''{}'')\<lparr>files := (files (worldWithInput ''{}''))(''out.docx'' \<mapsto> ''PK'')\<rparr>)"
  by (simp add: run_def generateResume_def resume_sections_empty packAndWrite_def
      writeFileSync_def failingWriteEnv_def Let_def)

text \<open>
  Claim C5, as amended. When the generation fails, the process exits with code 1 and
  the cause is written to the error stream. An input file that is missing or is not
  JSON makes the script throw before \<open>run\<close> is called, outside its handler: the cause
  is reported as an uncaught exception and nothing else changes. A failure of \<open>run\<close>
  is a \<open>TypeError\<close> of the script's own code (as for the payload \<open>null\<close>), or the
  error with which the packer rejects, or a file-system error of the write; the handler
  writes it after \<open>Error generating document:\<close>. No file but the output file is ever
  touched, and the files are as they were unless the write itself fails part way. The
  script writes in place, with no temporary file and no clean-up: the part written
  stays at the output path.
\<close>

theorem generation_failure_reported:
  assumes "inputFileOf args = Some inputFile" and "inputFile \<noteq> []"
    and "outputFileOf args = Some outputFile" and "outputFile \<noteq> []"
  shows
    "(files w inputFile = None \<longrightarrow>
        script env args w = w\<lparr>stderr := stderr w @ [Uncaught (FsError ''ENOENT'')], exitCode := Some 1\<rparr>) \<and>
     (\<forall>rawData e. files w inputFile = Some rawData \<and> parseJSON env rawData = Inl e \<longrightarrow>
        script env args w = w\<lparr>stderr := stderr w @ [Uncaught e], exitCode := Some 1\<rparr>) \<and>
     (\<forall>rawData. files w inputFile = Some rawData \<and> parseJSON env rawData = Inr None \<longrightarrow>
        script env args w =
          w\<lparr>stderr := stderr w @ [ConsoleError ''Error generating document:'' (Some nullData)],
            exitCode := Some 1\<rparr>) \<and>
     (\<forall>rawData data err w'. files w inputFile = Some rawData \<and> parseJSON env rawData = Inr data \<and>
          run env (docTypeOf args) data outputFile w = (Inl err, w') \<longrightarrow>
        stderr (script env args w) =
          stderr w @ [ConsoleError ''Error generating document:'' (Some err)] \<and>
        exitCode (script env args w) = Some 1 \<and>
        console_log (script env args w) = console_log w \<and>
        (\<forall>p. p \<noteq> outputFile \<longrightarrow> files (script env args w) p = files w p) \<and>
        ((\<exists>msg. err = TypeError msg) \<or> (\<exists>doc. toBuffer env doc = Inl err) \<or>
         (\<exists>code. err = FsError code)) \<and>
        (files (script env args w) = files w \<or>
         (\<exists>doc buffer n code. toBuffer env doc = Inr buffer \<and>
            writeOutcome env = WriteFailsAfter n code \<and> err = FsError code \<and>
            files (script env args w) = (files w)(outputFile \<mapsto> take n buffer))))"
proof -
  from assms have usable: "truthy (inputFileOf args)" "truthy (outputFileOf args)"
    "orElse (inputFileOf args) [] = inputFile" "orElse (outputFileOf args) [] = outputFile"
    by (simp_all add: truthy_def orElse_def)
  have parsed: "script env args w = runAndCatch env (docTypeOf args) data outputFile w"
    if "files w inputFile = Some rawData" "parseJSON env rawData = Inr data" for rawData data
    using that usable by (simp add: script_def Let_def)
  show ?thesis
  proof (intro conjI allI impI)
    assume "files w inputFile = None"
    with usable show "script env args w =
        w\<lparr>stderr := stderr w @ [Uncaught (FsError ''ENOENT'')], exitCode := Some 1\<rparr>"
      by (simp add: script_def Let_def uncaughtException_def)
  next
    fix rawData e
    assume "files w inputFile = Some rawData \<and> parseJSON env rawData = Inl e"
    with usable show "script env args w = w\<lparr>stderr := stderr w @ [Uncaught e], exitCode := Some 1\<rparr>"
      by (simp add: script_def Let_def uncaughtException_def)
  next
    fix rawData
    assume "files w inputFile = Some rawData \<and> parseJSON env rawData = Inr None"
    then show "script env args w =
          w\<lparr>stderr := stderr w @ [ConsoleError ''Error generating document:'' (Some nullData)],
            exitCode := Some 1\<rparr>"
      by (simp add: parsed runAndCatch_def run_null)
  next
    fix rawData data err w'
    assume a: "files w inputFile = Some rawData \<and> parseJSON env rawData = Inr data \<and>
          run env (docTypeOf args) data outputFile w = (Inl err, w')"
    then have s: "script env args w =
        w'\<lparr>stderr := stderr w' @ [ConsoleError ''Error generating document:'' (Some err)],
           exitCode := Some 1\<rparr>"
      by (simp add: parsed runAndCatch_def)
    from a have r: "run env (docTypeOf args) data outputFile w = (Inl err, w')" by simp
    note f = run_failure [OF r]
    from f show "stderr (script env args w) =
          stderr w @ [ConsoleError ''Error generating document:'' (Some err)]"
      by (simp add: s)
    show "exitCode (script env args w) = Some 1" by (simp add: s)
    from f show "console_log (script env args w) = console_log w" by (simp add: s)
    from f show "(\<exists>msg. err = TypeError msg) \<or> (\<exists>doc. toBuffer env doc = Inl err) \<or>
         (\<exists>code. err = FsError code)" by blast
    from f show "files (script env args w) = files w \<or>
         (\<exists>doc buffer n code. toBuffer env doc = Inr buffer \<and>
            writeOutcome env = WriteFailsAfter n code \<and> err = FsError code \<and>
            files (script env args w) = (files w)(outputFile \<mapsto> take n buffer))"
      by (simp add: s)
    fix p
    assume "p \<noteq> outputFile"
    with f show "files (script env args w) p = files w p" by (simp add: s)
  qed
qed

theorem generation_failure_reported_witness:
  "stderr (script failingWriteEnv [''in.json'', ''out.docx''] (worldWithInput ''{}'')) =
     [ConsoleError ''Error generating document:'' (Some (FsError ''ENOSPC''))] \<and>
   exitCode (script failingWriteEnv [''in.json'', ''out.docx''] (worldWithInput ''{}'')) = Some 1 \<and>
   script failingWriteEnv [''in.json'', ''out.docx''] (worldWithInput ''{ name'') =
     (worldWithInput ''{ name'')
       \<lparr>stderr := [Uncaught (SyntaxError ''Unexpected token'')], exitCode := Some 1\<rparr> \<and>
   script failingWriteEnv [''in.json'', ''out.docx''] (worldWithInput ''null'') =
     (worldWithInput ''null'')
       \<lparr>stderr := [ConsoleError ''Error generating document:'' (Some nullData)],
         exitCode := Some 1\<rparr>"
proof -
  have names: "''in.json'' \<noteq> []" "''out.docx'' \<noteq> []" by simp_all
  note g = generation_failure_reported [OF example_args(1) names(1) example_args(2) names(2)]
  have input: "files (worldWithInput rawData) ''in.json'' = Some rawData" for rawData
    by (simp add: worldWithInput_def)
  have err0: "stderr (worldWithInput rawData) = []" for rawData
    by (simp add: worldWithInput_def emptyWorld_def)
  have ok: "parseJSON failingWriteEnv ''{}'' = Inr (Some emptyPayload)"
    by (simp add: failingWriteEnv_def exampleParse_def)
  have bad: "parseJSON failingWriteEnv ''{ name'' = Inl (SyntaxError ''Unexpected token'')"
    by (simp add: failingWriteEnv_def exampleParse_def)
  have isNull: "parseJSON failingWriteEnv ''null'' = Inr None"
    by (simp add: failingWriteEnv_def exampleParse_def)
  from g [of "worldWithInput ''{}''" failingWriteEnv, THEN conjunct2, THEN conjunct2, THEN conjunct2,
      rule_format, of "''{}''" "Some emptyPayload" "FsError ''ENOSPC''"]
    input ok run_write_fails
  have a: "stderr (script failingWriteEnv [''in.json'', ''out.docx''] (worldWithInput ''{}'')) =
     [ConsoleError ''Error generating document:'' (Some (FsError ''ENOSPC''))] \<and>
   exitCode (script failingWriteEnv [''in.json'', ''out.docx''] (worldWithInput ''{}'')) = Some 1"
    by (simp add: example_args err0)
  from g [of "worldWithInput ''{ name''" failingWriteEnv, THEN conjunct2, THEN conjunct1,
      rule_format, of "''{ name''" "SyntaxError ''Unexpected token''"] input bad
  have b: "script failingWriteEnv [''in.json'', ''out.docx''] (worldWithInput ''{ name'') =
     (worldWithInput ''{ name'')
       \<lparr>stderr := [Uncaught (SyntaxError ''Unexpected token'')], exitCode := Some 1\<rparr>"
    by (simp add: err0)
  from g [of "worldWithInput ''null''" failingWriteEnv, THEN conjunct2, THEN conjunct2, THEN conjunct1,
      rule_format, of "''null''"] input isNull
  have c: "script failingWriteEnv [''in.json'', ''out.docx''] (worldWithInput ''null'') =
     (worldWithInput ''null'')
       \<lparr>stderr := [ConsoleError ''Error generating document:'' (Some nullData)],
         exitCode := Some 1\<rparr>"
    by (simp add: err0)
  from a b c show ?thesis by (intro conjI) simp_all
qed

text \<open>
  The claim as stated has no partial output left in place. A write that fails after two
  bytes leaves those two bytes at the output path.
\<close>

theorem partial_output_left_counterexample:
  "exitCode (script failingWriteEnv [''in.json'', ''out.docx''] (worldWithInput ''{}'')) = Some 1 \<and>
   files (script failingWriteEnv [''in.json'', ''out.docx''] (worldWithInput ''{}'')) ''out.docx'' =
     Some ''PK'' \<and>
   toBuffer failingWriteEnv (newDocument []) = Inr ''PK-docx-bytes'' \<and>
   ''PK'' \<noteq> ''PK-docx-bytes''"
proof -
  have "script failingWriteEnv [''in.json'', ''out.docx''] (worldWithInput ''{}'') =
      runAndCatch failingWriteEnv (Some ''resume'') (Some emptyPayload) ''out.docx'' (worldWithInput ''{}'')"
    by (simp add: script_def example_args truthy_def orElse_def Let_def worldWithInput_def
        failingWriteEnv_def exampleParse_def)
  then show ?thesis
    unfolding runAndCatch_def run_write_fails
    by (simp add: failingWriteEnv_def)
qed

end
